theory Spec2Isabelle
  imports Main "HOL-Library.Word" "HOL-Library.Monad_Syntax"
begin

section \<open>Parcel transport: \<^verbatim>\<open>src/runtime/parcelset/parcelport.cpp\<close>\<close>

subsection \<open>Data\<close>

text \<open>
  A locality prefix is a \<^verbatim>\<open>boost::uint32_t\<close>. Socket error codes are the value
  \<^verbatim>\<open>boost::system::error_code\<close>: \<open>success\<close> is the code that tests false
  (\<^verbatim>\<open>!e\<close>), the three named codes are the ones the source names, every other
  code is \<open>system_error n\<close>.
\<close>

type_synonym prefix = "32 word"

type_synonym endpoint = nat

type_synonym locality = string

datatype error_code = success | try_again | operation_aborted | eof | system_error nat

record address =
  loc :: locality

record parcel =
  get_destination :: "prefix \<times> nat"
  parcel_data :: nat

text \<open>
  Modelled from the spec: \<^verbatim>\<open>naming::get_prefix_from_gid\<close> is not under src. The
  spec's parcel carries a destination identifier, and the pending-parcel queue is keyed
  by it; the global id of the destination is the pair of that identifier and a local
  part.
\<close>

definition get_prefix_from_gid :: "prefix \<times> nat \<Rightarrow> prefix" where
  "get_prefix_from_gid g = fst g"

text \<open>
  A write handler is a \<^verbatim>\<open>boost::function<void(error_code const&, size_t)>\<close>:
  called for its effect, it is a transformer of the rest of the world \<open>'w\<close>.
\<close>

type_synonym 'w write_handler_type = "error_code \<Rightarrow> nat \<Rightarrow> 'w \<Rightarrow> 'w"

text \<open>
  A connection is an object made by \<^verbatim>\<open>new parcelport_connection\<close> for a prefix;
  the number tells the objects apart. The receive data point of a connection holds the
  reading of the timer at the start of the read; \<open>bytes\<close> stands for its other
  members, which the code here does not touch.
\<close>

datatype connection = parcelport_connection nat prefix

text \<open>
  An accepted connection is a \<^verbatim>\<open>server::parcelport_connection\<close>: the number
  tells the objects apart, \<^verbatim>\<open>get_receive_data()\<close> is the data point it holds.
\<close>

record data_point =
  timer :: int
  bytes :: nat


datatype error_message =
    message error_code
  | message_while_connecting error_code locality

datatype hpx_exception = network_error string error_message

text \<open>
  What a call does to its collaborators (the connection cache, the sockets, the
  scheduler, the log) is recorded, in program order, as a trace of events. The two
  critical sections on the pending-parcel map are events too, so that their place among
  the calls to the collaborators can be read off the trace.
\<close>

datatype 'w event =
    connection_cache_get prefix "connection option"
  | connection_cache_full prefix bool
  | connection_cache_add prefix connection
  | pending_parcels_push_back prefix
  | pending_parcels_swap prefix
  | new_parcelport_connection connection
  | socket_close connection
  | socket_connect connection endpoint error_code
  | this_thread_sleep nat
  | set_parcel connection "parcel list"
  | async_write connection "'w write_handler_type"
  | register_thread_nullary string prefix
  | LPT_error error_code
  | new_server_parcelport_connection nat
  | acceptor_async_accept nat
  | connection_async_read nat

type_synonym 'w pending_parcels_map =
  "prefix \<rightharpoonup> parcel list \<times> 'w write_handler_type list"

text \<open>
  The members of \<^verbatim>\<open>parcelport\<close> the code here writes, the number of connections
  it has made, and the trace.
\<close>

record 'w parcelport =
  pending_parcels :: "'w pending_parcels_map"
  parcels_received :: "data_point list"
  connections_created :: nat
  trace :: "'w event list"

text \<open>
  The collaborators that are not under src are parameters of the model: what the
  connection cache answers to \<^verbatim>\<open>get\<close> and \<^verbatim>\<open>full\<close> in this call, what
  the locality resolves to on each sweep (\<^verbatim>\<open>connect_begin\<close> may throw an error
  code), what each \<^verbatim>\<open>socket().connect\<close> reports, and the two configuration
  macros.
\<close>

record environment =
  cache_get :: "prefix \<Rightarrow> connection option"
  cache_full :: "prefix \<Rightarrow> bool"
  connect_begin :: "locality \<Rightarrow> nat \<Rightarrow> error_code + endpoint list"
  connect_result :: "nat \<Rightarrow> endpoint \<Rightarrow> error_code"
  HPX_MAX_NETWORK_RETRIES :: int
  HPX_NETWORK_RETRIES_SLEEP :: nat

definition emit :: "'w event list \<Rightarrow> 'w parcelport \<Rightarrow> 'w parcelport" where
  "emit es s = s\<lparr>trace := trace s @ es\<rparr>"

subsection \<open>\<^verbatim>\<open>call_for_each\<close>\<close>

text \<open>
  \<^verbatim>\<open>BOOST_FOREACH(write_handler_type f, fv) { f(e, bytes_written); }\<close>
\<close>

fun call_for_each :: "'w write_handler_type list \<Rightarrow> 'w write_handler_type" where
  "call_for_each [] e bytes_written w = w"
| "call_for_each (f # fv) e bytes_written w = call_for_each fv e bytes_written (f e bytes_written w)"

subsection \<open>The critical sections on the pending-parcel map\<close>

text \<open>
  \<^verbatim>\<open>pending_parcels_[prefix]\<close> is \<^verbatim>\<open>std::map::operator[]\<close>: a missing entry
  is created with two empty vectors.
\<close>

definition entry :: "'w pending_parcels_map \<Rightarrow> prefix \<Rightarrow> parcel list \<times> 'w write_handler_type list" where
  "entry m prefix = (case m prefix of None \<Rightarrow> ([], []) | Some e \<Rightarrow> e)"

text \<open>Lines 190-194: both \<^verbatim>\<open>push_back\<close>s under one \<^verbatim>\<open>scoped_lock\<close>.\<close>

definition enqueue ::
  "prefix \<Rightarrow> parcel \<Rightarrow> 'w write_handler_type \<Rightarrow> 'w pending_parcels_map \<Rightarrow> 'w pending_parcels_map" where
  "enqueue prefix p f m =
     (let m1 = m(prefix \<mapsto> (fst (entry m prefix) @ [p], snd (entry m prefix)));
          m2 = m1(prefix \<mapsto> (fst (entry m1 prefix), snd (entry m1 prefix) @ [f]))
      in m2)"

text \<open>
  Lines 276-280: both \<^verbatim>\<open>std::swap\<close>s with the empty local vectors under one
  \<^verbatim>\<open>scoped_lock\<close>; the result is the pair of local vectors and the new map.
\<close>

definition swap_pending ::
  "prefix \<Rightarrow> 'w pending_parcels_map \<Rightarrow> (parcel list \<times> 'w write_handler_type list) \<times> 'w pending_parcels_map" where
  "swap_pending prefix m =
     (let parcels = fst (entry m prefix);
          m1 = m(prefix \<mapsto> ([], snd (entry m prefix)));
          handlers = snd (entry m1 prefix);
          m2 = m1(prefix \<mapsto> (fst (entry m1 prefix), []))
      in ((parcels, handlers), m2))"

text \<open>
  Lines 322-331: the same swaps behind \<^verbatim>\<open>pending_parcels_.find(prefix)\<close>, which
  creates no entry.
\<close>

definition swap_pending_found ::
  "prefix \<Rightarrow> 'w pending_parcels_map \<Rightarrow> (parcel list \<times> 'w write_handler_type list) \<times> 'w pending_parcels_map" where
  "swap_pending_found prefix m =
     (case m prefix of
        None \<Rightarrow> (([], []), m)
      | Some it \<Rightarrow> ((fst it, snd it), m(prefix \<mapsto> ([], []))))"

subsection \<open>\<^verbatim>\<open>parcelport::handle_accept\<close>\<close>


subsection \<open>\<^verbatim>\<open>parcelport::handle_read_completion\<close>\<close>


subsection \<open>\<^verbatim>\<open>parcelport::send_parcel\<close>\<close>

text \<open>
  The inner loop of lines 230-241 over the resolved endpoints: close the socket,
  connect, stop at the first success. \<open>error\<close> is the variable the connect writes.
\<close>

fun connect_endpoints ::
  "(endpoint \<Rightarrow> error_code) \<Rightarrow> connection \<Rightarrow> endpoint list \<Rightarrow> error_code \<Rightarrow> 'w event list
     \<Rightarrow> error_code \<times> 'w event list" where
  "connect_endpoints net c [] error tr = (error, tr)"
| "connect_endpoints net c (it # rest) error tr =
     (let error1 = net it;
          tr1 = tr @ [socket_close c, socket_connect c it error1]
      in if error1 = success then (error1, tr1) else connect_endpoints net c rest error1 tr1)"

text \<open>
  The retry loop of lines 226-254: \<open>k\<close> sweeps are left, \<open>i\<close> is the loop counter.
  An error code thrown while resolving is rethrown as \<^verbatim>\<open>network_error\<close>.
\<close>

fun connect_retry ::
  "environment \<Rightarrow> address \<Rightarrow> connection \<Rightarrow> nat \<Rightarrow> nat \<Rightarrow> error_code \<Rightarrow> 'w event list
     \<Rightarrow> (hpx_exception + error_code) \<times> 'w event list" where
  "connect_retry env addr c 0 i error tr = (Inr error, tr)"
| "connect_retry env addr c (Suc k) i error tr =
     (case connect_begin env (loc addr) i of
        Inl e \<Rightarrow> (Inl (network_error ''parcelport::send_parcel'' (message e)), tr)
      | Inr endpoints \<Rightarrow>
          (case connect_endpoints (connect_result env i) c endpoints error tr of
             (error1, tr1) \<Rightarrow>
               if error1 = success then (Inr error1, tr1)
               else connect_retry env addr c k (Suc i) error1
                      (tr1 @ [this_thread_sleep (HPX_NETWORK_RETRIES_SLEEP env)])))"

text \<open>Lines 183-194: the cache lookup, then the enqueue.\<close>

definition send_parcel_enqueue ::
  "environment \<Rightarrow> parcel \<Rightarrow> 'w write_handler_type \<Rightarrow> 'w parcelport
     \<Rightarrow> connection option \<times> 'w parcelport" where
  "send_parcel_enqueue env p f s =
     (let prefix = get_prefix_from_gid (get_destination p);
          client_connection = cache_get env prefix;
          s1 = emit [connection_cache_get prefix client_connection] s;
          s2 = emit [pending_parcels_push_back prefix]
                 (s1\<lparr>pending_parcels := enqueue prefix p f (pending_parcels s1)\<rparr>)
      in (client_connection, s2))"

text \<open>
  Lines 208-268, entered without a cached connection. \<open>Inr None\<close> is the early return
  of a full cache, \<open>Inr (Some c)\<close> a connected new connection, \<open>Inl\<close> the exception.
\<close>

definition send_parcel_connect ::
  "environment \<Rightarrow> prefix \<Rightarrow> address \<Rightarrow> 'w parcelport
     \<Rightarrow> (hpx_exception + connection option) \<times> 'w parcelport" where
  "send_parcel_connect env prefix addr s =
     (let full = cache_full env prefix;
          s1 = emit [connection_cache_full prefix full] s
      in if full then (Inr None, s1)
         else
           (let c = parcelport_connection (connections_created s1) prefix;
                s2 = emit [new_parcelport_connection c]
                       (s1\<lparr>connections_created := Suc (connections_created s1)\<rparr>)
            in case connect_retry env addr c (nat (HPX_MAX_NETWORK_RETRIES env)) 0 try_again [] of
                 (Inl ex, tr) \<Rightarrow> (Inl ex, emit tr s2)
               | (Inr error, tr) \<Rightarrow>
                   if error \<noteq> success
                   then (Inl (network_error ''parcelport::send_parcel''
                                (message_while_connecting error (loc addr))),
                         emit (tr @ [socket_close c]) s2)
                   else (Inr (Some c), emit tr s2)))"


text \<open>Lines 283-300 and 333-348: write the drained batch, or give the connection back.\<close>

definition write_or_readd ::
  "prefix \<Rightarrow> connection \<Rightarrow> parcel list \<Rightarrow> 'w write_handler_type list \<Rightarrow> 'w parcelport \<Rightarrow> 'w parcelport" where
  "write_or_readd prefix client_connection parcels handlers s =
     (if parcels \<noteq> [] \<and> handlers \<noteq> []
      then emit [set_parcel client_connection parcels,
                 async_write client_connection (call_for_each handlers)] s
      else emit [connection_cache_add prefix client_connection] s)"

text \<open>Lines 274-300, with the connection in hand.\<close>

definition send_parcel_drain :: "prefix \<Rightarrow> connection \<Rightarrow> 'w parcelport \<Rightarrow> 'w parcelport" where
  "send_parcel_drain prefix client_connection s =
     (case swap_pending prefix (pending_parcels s) of
        ((parcels, handlers), m) \<Rightarrow>
          write_or_readd prefix client_connection parcels handlers
            (emit [pending_parcels_swap prefix] (s\<lparr>pending_parcels := m\<rparr>)))"

text \<open>
  The whole call, run without another thread in between. The state is returned on
  every path: what the call did before it threw stays done.
\<close>

definition send_parcel ::
  "environment \<Rightarrow> parcel \<Rightarrow> address \<Rightarrow> 'w write_handler_type \<Rightarrow> 'w parcelport
     \<Rightarrow> (hpx_exception + unit) \<times> 'w parcelport" where
  "send_parcel env p addr f s =
     (let prefix = get_prefix_from_gid (get_destination p)
      in case send_parcel_enqueue env p f s of
           (Some client_connection, s1) \<Rightarrow> (Inr (), send_parcel_drain prefix client_connection s1)
         | (None, s1) \<Rightarrow>
             (case send_parcel_connect env prefix addr s1 of
                (Inl ex, s2) \<Rightarrow> (Inl ex, s2)
              | (Inr None, s2) \<Rightarrow> (Inr (), s2)
              | (Inr (Some client_connection), s2) \<Rightarrow>
                  (Inr (), send_parcel_drain prefix client_connection s2)))"

subsection \<open>\<^verbatim>\<open>parcelport::send_pending_parcels\<close>\<close>

definition send_pending_parcels :: "environment \<Rightarrow> prefix \<Rightarrow> 'w parcelport \<Rightarrow> 'w parcelport" where
  "send_pending_parcels env prefix s =
     (let client_connection = cache_get env prefix;
          s1 = emit [connection_cache_get prefix client_connection] s
      in case client_connection of
           None \<Rightarrow> s1
         | Some c \<Rightarrow>
             (case swap_pending_found prefix (pending_parcels s1) of
                ((parcels, handlers), m) \<Rightarrow>
                  write_or_readd prefix c parcels handlers
                    (emit [pending_parcels_swap prefix] (s1\<lparr>pending_parcels := m\<rparr>))))"

section \<open>Cooperative execution context: \<^verbatim>\<open>unnamed/part_001\<close>\<close>

subsection \<open>Data\<close>

text \<open>
  The thread states are those the sources name. A thread function returns a
  \<^verbatim>\<open>result_type\<close>, the pair of a thread state and a thread id;
  \<^verbatim>\<open>invalid_thread_id\<close> is the id that names no thread.
\<close>

datatype thread_state_enum = unknown | active | pending | terminated

type_synonym thread_id_type = "nat option"

type_synonym result_type = "thread_state_enum \<times> thread_id_type"

definition invalid_thread_id :: thread_id_type where
  "invalid_thread_id = None"

text \<open>
  \<^verbatim>\<open>coroutine_self self(this, old_self)\<close>: the object made of the address of
  the context and the self that was current before. The thread-local marker holds the
  current one, or the null pointer.
\<close>

datatype coroutine_self = coroutine_self nat "coroutine_self option"

record thread_locals =
  current_self :: "coroutine_self option"

text \<open>
  Modelled from the spec: \<^verbatim>\<open>coroutine_self::get_self\<close> and
  \<^verbatim>\<open>coroutine_self::set_self\<close> are not under src; they read and write the
  thread-local "current context" marker.
\<close>

definition get_self :: "thread_locals \<Rightarrow> coroutine_self option" where
  "get_self tls = current_self tls"

definition set_self :: "coroutine_self option \<Rightarrow> thread_locals \<Rightarrow> thread_locals" where
  "set_self val tls = tls\<lparr>current_self := val\<rparr>"

text \<open>
  Modelled from the spec: the base class of \<^verbatim>\<open>coroutine_impl\<close> is not under
  src. The states of a context are the spec's Ready, Running, Suspended and Terminated
  (the source names \<^verbatim>\<open>ctx_running\<close>); the exit statuses are the two the source
  names.
\<close>

datatype context_state = ctx_ready | ctx_running | ctx_suspended | ctx_terminated

datatype context_exit_status = ctx_exited_return | ctx_exited_abnormally

text \<open>
  A work item is called with the argument the resumer passed and runs on the thread:
  it may change the thread-locals, and it either returns a result or throws (\<open>Inl\<close>,
  with the exception as its payload).
\<close>

type_synonym thread_function =
  "nat \<Rightarrow> thread_locals \<Rightarrow> (string + result_type) \<times> thread_locals"

record coroutine_impl =
  m_state :: context_state
  m_fun :: "thread_function option"
  args :: nat
  m_result :: "result_type option"
  m_exit_status :: "context_exit_status option"
  m_type_info :: "string option"

text \<open>
  Modelled from the spec: \<^verbatim>\<open>bind_result\<close>, \<^verbatim>\<open>reset\<close> and
  \<^verbatim>\<open>do_return\<close> are not under src. The spec's context delivers the terminal
  result (completion state and optional error payload) to the resumer and is then
  Terminated, with no work item bound until it is rebound.
\<close>

definition bind_result :: "result_type \<Rightarrow> coroutine_impl \<Rightarrow> coroutine_impl" where
  "bind_result res ctx = ctx\<lparr>m_result := Some res\<rparr>"

definition coroutine_reset :: "coroutine_impl \<Rightarrow> coroutine_impl" where
  "coroutine_reset ctx = ctx\<lparr>m_fun := None\<rparr>"

definition do_return :: "context_exit_status \<Rightarrow> string option \<Rightarrow> coroutine_impl \<Rightarrow> coroutine_impl" where
  "do_return status info ctx =
     ctx\<lparr>m_state := ctx_terminated, m_exit_status := Some status, m_type_info := info\<rparr>"

subsection \<open>\<^verbatim>\<open>coroutine_impl::operator()\<close>\<close>

text \<open>
  \<^verbatim>\<open>m_fun(*this->args())\<close>. Modelled from the spec: calling a work item that is
  not bound fails with \<^verbatim>\<open>EmptyCallable\<close>.
\<close>

definition call_m_fun :: "coroutine_impl \<Rightarrow> thread_locals \<Rightarrow> (string + result_type) \<times> thread_locals" where
  "call_m_fun ctx tls =
     (case m_fun ctx of
        None \<Rightarrow> (Inl ''EmptyCallable'', tls)
      | Some f \<Rightarrow> f (args ctx) tls)"

text \<open>
  Lines 87-94, the inner block. The constructor of \<^verbatim>\<open>reset_self_on_exit\<close>
  (lines 49-54) installs the new self; its destructor (lines 56-59) runs when the block
  is left, by the end of the block or by an exception, and installs \<open>old_self\<close>.
  \<open>None\<close> is the failed \<^verbatim>\<open>HPX_ASSERT\<close> of line 93.
\<close>

definition guarded_call ::
  "nat \<Rightarrow> coroutine_impl \<Rightarrow> thread_locals \<Rightarrow> ((string + result_type) \<times> thread_locals) option" where
  "guarded_call this ctx tls =
     (let old_self = get_self tls;
          self = coroutine_self this old_self;
          tls1 = set_self (Some self) tls
      in case call_m_fun ctx tls1 of
           (Inl ex, tls2) \<Rightarrow> Some (Inl ex, set_self old_self tls2)
         | (Inr res, tls2) \<Rightarrow>
             (if fst res = terminated then Some (Inr res, set_self old_self tls2) else None))"

text \<open>
  Lines 84-105, one turn of the loop: the \<^verbatim>\<open>try\<close> block, the
  \<^verbatim>\<open>catch (...)\<close>, then \<^verbatim>\<open>reset\<close> and \<^verbatim>\<open>do_return\<close>. The
  variables \<open>status\<close> and \<open>result_last\<close> live across the turns.
\<close>

definition iteration ::
  "nat \<Rightarrow> context_exit_status \<Rightarrow> result_type \<Rightarrow> coroutine_impl \<Rightarrow> thread_locals
     \<Rightarrow> (context_exit_status \<times> result_type \<times> coroutine_impl \<times> thread_locals) option" where
  "iteration this status result_last ctx tls =
     (case guarded_call this ctx tls of
        None \<Rightarrow> None
      | Some (Inr res, tls1) \<Rightarrow>
          Some (status, res, do_return status None (coroutine_reset (bind_result res ctx)), tls1)
      | Some (Inl ex, tls1) \<Rightarrow>
          Some (ctx_exited_abnormally, result_last,
                do_return ctx_exited_abnormally (Some ex) (coroutine_reset ctx), tls1))"

text \<open>
  \<^verbatim>\<open>do_return\<close> gives control to the resumer. The body runs on only when the
  resumer comes back: having rebound the context to a new work item (Modelled from the
  spec: the context is Running again), or without rebinding. The thread-locals are then
  those of the resuming thread.
\<close>

datatype resumer_action =
    rebind thread_function nat thread_locals
  | resume thread_locals

fun resumed :: "resumer_action \<Rightarrow> coroutine_impl \<Rightarrow> coroutine_impl \<times> thread_locals" where
  "resumed (rebind f a tls) ctx = (ctx\<lparr>m_state := ctx_running, m_fun := Some f, args := a\<rparr>, tls)"
| "resumed (resume tls) ctx = (ctx, tls)"

text \<open>
  Lines 82-109, the loop. The result lists what the resumer saw at each
  \<^verbatim>\<open>do_return\<close>: the context and the thread-locals. \<open>None\<close> is a failed
  assertion: the one of line 93, or the one of line 109, reached when the context is
  resumed while it is not running.
\<close>

fun run_loop ::
  "nat \<Rightarrow> resumer_action list \<Rightarrow> context_exit_status \<Rightarrow> result_type \<Rightarrow> coroutine_impl \<Rightarrow> thread_locals
     \<Rightarrow> ((coroutine_impl \<times> thread_locals) list) option" where
  "run_loop this acts status result_last ctx tls =
     (case iteration this status result_last ctx tls of
        None \<Rightarrow> None
      | Some (status1, result_last1, ctx1, tls1) \<Rightarrow>
          (case acts of
             [] \<Rightarrow> Some [(ctx1, tls1)]
           | a # later \<Rightarrow>
               (case resumed a ctx1 of
                  (ctx2, tls2) \<Rightarrow>
                    if m_state ctx2 = ctx_running
                    then map_option ((#) (ctx1, tls1)) (run_loop this later status1 result_last1 ctx2 tls2)
                    else None)))"

text \<open>Lines 72-110, from the first entry.\<close>

definition coroutine_impl_call ::
  "nat \<Rightarrow> resumer_action list \<Rightarrow> coroutine_impl \<Rightarrow> thread_locals
     \<Rightarrow> ((coroutine_impl \<times> thread_locals) list) option" where
  "coroutine_impl_call this acts ctx tls =
     run_loop this acts ctx_exited_return (terminated, invalid_thread_id) ctx tls"

section \<open>Type-erased callable: \<^verbatim>\<open>hpx/runtime/threads/thread_helpers.hpp\<close>, from line 79\<close>

subsection \<open>Data\<close>

text \<open>
  A callable handed to the container has a decayed type \<open>T\<close>, known by its name and
  its \<^verbatim>\<open>sizeof\<close>, and a value. The values are told apart the way the overloads of
  \<^verbatim>\<open>is_empty_function\<close> tell them apart: a function pointer, a member pointer
  (\<open>None\<close> is the null pointer), an object of a class derived from
  \<^verbatim>\<open>function_base\<close> (with what its \<^verbatim>\<open>empty()\<close> answers), or anything
  else.
\<close>

datatype ctype = ctype (type_name: string) (type_size: nat)

datatype cvalue =
    function_pointer "nat option"
  | member_pointer "nat option"
  | function_object bool nat
  | function_state nat

datatype callable = callable (type_of: ctype) (value_of: cvalue)

text \<open>
  A \<^verbatim>\<open>void*\<close> is null, or the inline buffer \<^verbatim>\<open>&storage\<close> of the container
  at an address, or a block of the heap. A dispatch-table pointer is null, or the table
  of the empty function, or the table of a type.
\<close>

datatype pointer = nullptr | storage_of nat | heap_block nat

datatype vtable_ptr = null_vtable | empty_function_vtable | vtable ctype

datatype serializable_vtable_ptr = null_serializable_vtable | serializable_vtable ctype

text \<open>
  \<^verbatim>\<open>function_base\<close> (lines 378-383) and \<^verbatim>\<open>basic_function\<close>, which adds
  \<^verbatim>\<open>serializable_vptr\<close> (line 472). The buffer holds a constructed object or
  none.
\<close>

record function_base =
  vptr :: vtable_ptr
  object :: pointer
  storage :: "callable option"

record basic_function = function_base +
  serializable_vptr :: serializable_vtable_ptr

text \<open>
  The containers are objects with an address: the code compares \<^verbatim>\<open>this\<close> with
  \<^verbatim>\<open>&other\<close> and \<^verbatim>\<open>object\<close> with \<^verbatim>\<open>&other.storage\<close>. The memory
  holds the containers by address, what the blocks of the heap hold (a constructed
  object or none), and the number of blocks allocated so far: the next block is a fresh
  one.
\<close>

record memory =
  sizeof_void_ptr :: nat
  containers :: "nat \<rightharpoonup> basic_function"
  heap :: "nat \<Rightarrow> callable option"
  allocations :: nat

datatype callable_error = EmptyCallable | UnknownCallableType

text \<open>Line 112, and the \<^verbatim>\<open>-1\<close> that line 204 passes as a \<^verbatim>\<open>std::size_t\<close>.\<close>

definition function_storage_size :: "memory \<Rightarrow> nat" where
  "function_storage_size mem = 3 * sizeof_void_ptr mem"

definition size_max :: "memory \<Rightarrow> nat" where
  "size_max mem = 2 ^ (8 * sizeof_void_ptr mem) - 1"

text \<open>Lines 118-146.\<close>

fun is_empty_function :: "callable \<Rightarrow> bool" where
  "is_empty_function (callable T (function_pointer fp)) = (fp = None)"
| "is_empty_function (callable T (member_pointer mp)) = (mp = None)"
| "is_empty_function (callable T (function_object is_empty state)) = is_empty"
| "is_empty_function (callable T (function_state state)) = False"

text \<open>
  Modelled from the spec: the dispatch tables are not under src. The table of the empty
  state is a fixed sentinel shared by all instances; every type has its own table.
\<close>

definition get_empty_function_vtable :: vtable_ptr where
  "get_empty_function_vtable = empty_function_vtable"

definition get_vtable :: "ctype \<Rightarrow> vtable_ptr" where
  "get_vtable T = vtable T"

definition get_serializable_vtable :: "ctype \<Rightarrow> serializable_vtable_ptr" where
  "get_serializable_vtable T = serializable_vtable T"

text \<open>A failed assertion, like the use of a null pointer, ends the run: \<open>None\<close>.\<close>

definition HPX_ASSERT :: "bool \<Rightarrow> unit option" where
  "HPX_ASSERT b = (if b then Some () else None)"

subsection \<open>Memory\<close>

text \<open>
  \<open>modify\<close> writes members of the container at an address. \<open>read_at\<close> and
  \<open>write_at\<close> read and write the object behind a \<^verbatim>\<open>void*\<close>: writing \<open>None\<close>
  is the destructor call, writing \<open>Some f\<close> the placement \<^verbatim>\<open>new\<close>. Reading
  or writing through the null pointer ends the run (\<open>None\<close>), and so does reading the
  buffer of a container that does not exist.
\<close>

definition modify :: "nat \<Rightarrow> (basic_function \<Rightarrow> basic_function) \<Rightarrow> memory \<Rightarrow> memory" where
  "modify a g mem = mem\<lparr>containers := (containers mem)(a := map_option g (containers mem a))\<rparr>"

definition read_at :: "pointer \<Rightarrow> memory \<Rightarrow> callable option option" where
  "read_at p mem =
     (case p of
        nullptr \<Rightarrow> None
      | storage_of a \<Rightarrow> map_option storage (containers mem a)
      | heap_block n \<Rightarrow> Some (heap mem n))"

definition write_at :: "pointer \<Rightarrow> callable option \<Rightarrow> memory \<Rightarrow> memory option" where
  "write_at p v mem =
     (case p of
        nullptr \<Rightarrow> None
      | storage_of a \<Rightarrow> Some (modify a (\<lambda>fb. fb\<lparr>storage := v\<rparr>) mem)
      | heap_block n \<Rightarrow> Some (mem\<lparr>heap := (heap mem)(n := v)\<rparr>))"

text \<open>
  Modelled from the spec: \<^verbatim>\<open>vtable::allocate\<close>, \<^verbatim>\<open>deallocate\<close> and
  \<^verbatim>\<open>copy\<close> are not under src. The spec picks the inline storage if the new
  value fits the fixed buffer and allocates otherwise; its dispatch table destroys and
  copies the payload, and the table of the empty state is valid but erroring.
\<close>

definition allocate :: "ctype \<Rightarrow> pointer \<Rightarrow> nat \<Rightarrow> memory \<Rightarrow> pointer \<times> memory" where
  "allocate T storage_ptr storage_size mem =
     (if type_size T > storage_size
      then (heap_block (allocations mem),
            mem\<lparr>heap := (heap mem)(allocations mem := None), allocations := Suc (allocations mem)\<rparr>)
      else (storage_ptr, mem))"

definition vtable_deallocate :: "vtable_ptr \<Rightarrow> pointer \<Rightarrow> nat \<Rightarrow> bool \<Rightarrow> memory \<Rightarrow> memory option" where
  "vtable_deallocate vt obj storage_size destroy_it mem =
     (case vt of
        null_vtable \<Rightarrow> None
      | empty_function_vtable \<Rightarrow> None
      | vtable T \<Rightarrow> do {
          mem1 \<leftarrow> (if destroy_it then write_at obj None mem else Some mem);
          if type_size T > storage_size
          then (case obj of heap_block n \<Rightarrow> Some (mem1\<lparr>heap := (heap mem1)(n := None)\<rparr>) | _ \<Rightarrow> None)
          else Some mem1 })"

definition vtable_copy ::
  "vtable_ptr \<Rightarrow> pointer \<Rightarrow> nat \<Rightarrow> pointer \<Rightarrow> bool \<Rightarrow> memory \<Rightarrow> (pointer \<times> memory) option" where
  "vtable_copy vt storage_ptr storage_size src destroy_it mem =
     (case vt of
        null_vtable \<Rightarrow> None
      | empty_function_vtable \<Rightarrow> None
      | vtable T \<Rightarrow> do {
          mem1 \<leftarrow> (if destroy_it then write_at storage_ptr None mem else Some mem);
          (buffer, mem2) \<leftarrow> Some (allocate T storage_ptr storage_size mem1);
          v \<leftarrow> read_at src mem2;
          mem3 \<leftarrow> write_at buffer v mem2;
          Some (buffer, mem3) })"

subsection \<open>\<^verbatim>\<open>function_base\<close>\<close>

text \<open>
  Lines 159-163 and 403-406: the default constructor, of the container at the address
  \<open>this\<close>.
\<close>

definition function_base_default :: "nat \<Rightarrow> memory \<Rightarrow> memory" where
  "function_base_default this mem =
     mem\<lparr>containers := (containers mem)(this \<mapsto>
        \<lparr>vptr = get_empty_function_vtable, object = nullptr, storage = None,
         serializable_vptr = null_serializable_vtable\<rparr>)\<rparr>"

text \<open>
  Lines 165-175: the copy constructor. The implicit copy and move constructors of
  \<^verbatim>\<open>basic_function\<close> copy \<^verbatim>\<open>serializable_vptr\<close>.
\<close>

definition function_base_copy :: "nat \<Rightarrow> nat \<Rightarrow> memory \<Rightarrow> memory option" where
  "function_base_copy this other mem = do {
     o1 \<leftarrow> containers mem other;
     let mem1 = mem\<lparr>containers := (containers mem)(this \<mapsto>
                  \<lparr>vptr = vptr o1, object = object o1, storage = None,
                   serializable_vptr = serializable_vptr o1\<rparr>)\<rparr>;
     if object o1 \<noteq> nullptr
     then do {
       (p, mem2) \<leftarrow> vtable_copy (vptr o1) (storage_of this) (function_storage_size mem1) (object o1) False mem1;
       Some (modify this (\<lambda>fb. fb\<lparr>object := p\<rparr>) mem2) }
     else Some mem1 }"

text \<open>Lines 177-188: the move constructor.\<close>

definition function_base_move :: "nat \<Rightarrow> nat \<Rightarrow> memory \<Rightarrow> memory option" where
  "function_base_move this other mem = do {
     o1 \<leftarrow> containers mem other;
     let mem1 = mem\<lparr>containers := (containers mem)(this \<mapsto>
                  \<lparr>vptr = vptr o1, object = object o1, storage = None,
                   serializable_vptr = serializable_vptr o1\<rparr>)\<rparr>;
     let mem2 = (if object o1 = storage_of other
                 then modify this (\<lambda>fb. fb\<lparr>object := storage_of this\<rparr>)
                        (modify this (\<lambda>fb. fb\<lparr>storage := storage o1\<rparr>) mem1)
                 else mem1);
     let mem3 = modify other (\<lambda>fb. fb\<lparr>vptr := get_empty_function_vtable\<rparr>) mem2;
     Some (modify other (\<lambda>fb. fb\<lparr>object := nullptr\<rparr>) mem3) }"

text \<open>Lines 267-275 and 277-282.\<close>

definition destroy :: "nat \<Rightarrow> memory \<Rightarrow> memory option" where
  "destroy this mem = do {
     fb \<leftarrow> containers mem this;
     if object fb \<noteq> nullptr
     then vtable_deallocate (vptr fb) (object fb) (function_storage_size mem) True mem
     else Some mem }"

definition reset :: "nat \<Rightarrow> memory \<Rightarrow> memory option" where
  "reset this mem = do {
     mem1 \<leftarrow> destroy this mem;
     let mem2 = modify this (\<lambda>fb. fb\<lparr>vptr := get_empty_function_vtable\<rparr>) mem1;
     Some (modify this (\<lambda>fb. fb\<lparr>object := nullptr\<rparr>) mem2) }"

text \<open>Lines 195-220: the copy assignment.\<close>

definition copy_assign :: "nat \<Rightarrow> nat \<Rightarrow> memory \<Rightarrow> memory option" where
  "copy_assign this other mem = do {
     fb \<leftarrow> containers mem this;
     o1 \<leftarrow> containers mem other;
     if vptr fb = vptr o1
     then
       (if this \<noteq> other \<and> object fb \<noteq> nullptr
        then do {
          _ \<leftarrow> HPX_ASSERT (object o1 \<noteq> nullptr);
          (p, mem1) \<leftarrow> vtable_copy (vptr fb) (object fb) (size_max mem) (object o1) True mem;
          Some (modify this (\<lambda>fb. fb\<lparr>object := p\<rparr>) mem1) }
        else Some mem)
     else do {
       mem1 \<leftarrow> destroy this mem;
       let mem2 = modify this (\<lambda>fb. fb\<lparr>vptr := vptr o1\<rparr>) mem1;
       if object o1 \<noteq> nullptr
       then do {
         (p, mem3) \<leftarrow> vtable_copy (vptr o1) (storage_of this) (function_storage_size mem2) (object o1) False mem2;
         Some (modify this (\<lambda>fb. fb\<lparr>object := p\<rparr>) mem3) }
       else Some (modify this (\<lambda>fb. fb\<lparr>object := nullptr\<rparr>) mem2) } }"

text \<open>Lines 284-293: the three \<^verbatim>\<open>std::swap\<close>s, then the two self-pointers.\<close>

definition swap_function :: "nat \<Rightarrow> nat \<Rightarrow> memory \<Rightarrow> memory option" where
  "swap_function this f mem = do {
     a \<leftarrow> containers mem this;
     b \<leftarrow> containers mem f;
     let mem1 = modify f (\<lambda>fb. fb\<lparr>vptr := vptr a\<rparr>) (modify this (\<lambda>fb. fb\<lparr>vptr := vptr b\<rparr>) mem);
     let mem2 = modify f (\<lambda>fb. fb\<lparr>object := object a\<rparr>) (modify this (\<lambda>fb. fb\<lparr>object := object b\<rparr>) mem1);
     let mem3 = modify f (\<lambda>fb. fb\<lparr>storage := storage a\<rparr>) (modify this (\<lambda>fb. fb\<lparr>storage := storage b\<rparr>) mem2);
     a3 \<leftarrow> containers mem3 this;
     let mem4 = (if object a3 = storage_of f
                 then modify this (\<lambda>fb. fb\<lparr>object := storage_of this\<rparr>) mem3 else mem3);
     b4 \<leftarrow> containers mem4 f;
     Some (if object b4 = storage_of this
           then modify f (\<lambda>fb. fb\<lparr>object := storage_of f\<rparr>) mem4 else mem4) }"

text \<open>Lines 222-230: the move assignment.\<close>

definition move_assign :: "nat \<Rightarrow> nat \<Rightarrow> memory \<Rightarrow> memory option" where
  "move_assign this other mem =
     (if this \<noteq> other
      then do { mem1 \<leftarrow> swap_function this other mem; reset other mem1 }
      else Some mem)"

text \<open>
  Lines 237-265: \<^verbatim>\<open>assign(F&& f)\<close>. Line 232, \<^verbatim>\<open>assign(nullptr_t)\<close>, is
  \<open>reset\<close>.
\<close>

definition assign :: "nat \<Rightarrow> callable \<Rightarrow> memory \<Rightarrow> memory option" where
  "assign this f mem =
     (if \<not> is_empty_function f
      then do {
        fb \<leftarrow> containers mem this;
        let f_vptr = get_vtable (type_of f);
        (buffer, mem1) \<leftarrow>
          (if vptr fb = f_vptr
           then do {
             _ \<leftarrow> HPX_ASSERT (object fb \<noteq> nullptr);
             mem1 \<leftarrow> write_at (object fb) None mem;
             Some (object fb, mem1) }
           else do {
             mem1 \<leftarrow> destroy this mem;
             let mem2 = modify this (\<lambda>fb. fb\<lparr>vptr := f_vptr\<rparr>) mem1;
             Some (allocate (type_of f) (storage_of this) (function_storage_size mem2) mem2) });
        mem2 \<leftarrow> write_at buffer (Some f) mem1;
        Some (modify this (\<lambda>fb. fb\<lparr>object := buffer\<rparr>) mem2) }
      else reset this mem)"

text \<open>Lines 295-298: \<^verbatim>\<open>empty()\<close>.\<close>

definition is_empty :: "nat \<Rightarrow> memory \<Rightarrow> bool option" where
  "is_empty this mem = map_option (\<lambda>fb. object fb = nullptr) (containers mem this)"

text \<open>
  Lines 337-340: the call goes through \<^verbatim>\<open>vptr\<close>. Modelled from the spec: the
  \<^verbatim>\<open>invoke\<close> entries are not under src; the one of the empty state fails with
  \<^verbatim>\<open>EmptyCallable\<close>, the one of a type calls the object, which is the result
  here.
\<close>

definition invoke :: "nat \<Rightarrow> memory \<Rightarrow> (callable_error + callable option) option" where
  "invoke this mem = do {
     fb \<leftarrow> containers mem this;
     case vptr fb of
       null_vtable \<Rightarrow> None
     | empty_function_vtable \<Rightarrow> Some (Inl EmptyCallable)
     | vtable T \<Rightarrow> map_option Inr (read_at (object fb) mem) }"

subsection \<open>\<^verbatim>\<open>basic_function\<close>, serializable\<close>

text \<open>Lines 408-418 and 420-424.\<close>

definition basic_function_assign :: "nat \<Rightarrow> callable \<Rightarrow> memory \<Rightarrow> memory option" where
  "basic_function_assign this f mem = do {
     mem1 \<leftarrow> assign this f mem;
     e \<leftarrow> is_empty this mem1;
     Some (if \<not> e
           then modify this (\<lambda>fb. fb\<lparr>serializable_vptr := get_serializable_vtable (type_of f)\<rparr>) mem1
           else mem1) }"

definition basic_function_swap :: "nat \<Rightarrow> nat \<Rightarrow> memory \<Rightarrow> memory option" where
  "basic_function_swap this f mem = do {
     mem1 \<leftarrow> swap_function this f mem;
     a \<leftarrow> containers mem1 this;
     b \<leftarrow> containers mem1 f;
     Some (modify f (\<lambda>fb. fb\<lparr>serializable_vptr := serializable_vptr a\<rparr>)
            (modify this (\<lambda>fb. fb\<lparr>serializable_vptr := serializable_vptr b\<rparr>) mem1)) }"

text \<open>
  Modelled from the spec: the archive, the registry behind
  \<^verbatim>\<open>get_serializable_vtable(name)\<close> and \<^verbatim>\<open>load_object\<close> are not under src.
  The archive is what its reads return: the empty flag, the type name, the payload.
  The registry maps a registered name to its type; the lookup of a name that is absent
  fails with \<^verbatim>\<open>UnknownCallableType\<close>. \<^verbatim>\<open>load_object\<close> reconstructs the
  payload into inline or heap storage.
\<close>

record input_archive =
  ar_is_empty :: bool
  ar_name :: string
  ar_object :: cvalue

text \<open>
  Lines 442-458: \<^verbatim>\<open>load\<close>. The result is the exception thrown, if any, and the
  memory the call leaves behind.
\<close>

definition load ::
  "(string \<rightharpoonup> ctype) \<Rightarrow> nat \<Rightarrow> input_archive \<Rightarrow> memory \<Rightarrow> (callable_error option \<times> memory) option" where
  "load registry this ar mem = do {
     mem1 \<leftarrow> reset this mem;
     let is_empty = ar_is_empty ar;
     if \<not> is_empty
     then
       (let name = ar_name ar
        in case registry name of
             None \<Rightarrow> Some (Some UnknownCallableType, mem1)
           | Some T \<Rightarrow> do {
               let mem2 = modify this (\<lambda>fb. fb\<lparr>serializable_vptr := serializable_vtable T\<rparr>) mem1;
               let mem3 = modify this (\<lambda>fb. fb\<lparr>vptr := vtable T\<rparr>) mem2;
               (buffer, mem4) \<leftarrow> Some (allocate T (storage_of this) (function_storage_size mem3) mem3);
               mem5 \<leftarrow> write_at buffer (Some (callable T (ar_object ar))) mem4;
               Some (None, modify this (\<lambda>fb. fb\<lparr>object := buffer\<rparr>) mem5) })
     else Some (None, mem1) }"

section \<open>Notions the properties are stated with\<close>

subsection \<open>Parcel transport\<close>


text \<open>The events in which the calling thread waits for the network.\<close>

fun blocking :: "'w event \<Rightarrow> bool" where
  "blocking (socket_connect c ep e) = True"
| "blocking (this_thread_sleep ms) = True"
| "blocking _ = False"


text \<open>A write handler that records that it was called, and with what.\<close>

definition logger :: "nat \<Rightarrow> (nat \<times> error_code \<times> nat) list write_handler_type" where
  "logger k e n w = w @ [(k, e, n)]"

text \<open>Values for the examples.\<close>

definition initial_parcelport :: "'w parcelport" where
  "initial_parcelport =
     \<lparr>pending_parcels = Map.empty, parcels_received = [], connections_created = 0, trace = []\<rparr>"

definition unreachable_env :: environment where
  "unreachable_env =
     \<lparr>cache_get = (\<lambda>_. None), cache_full = (\<lambda>_. False),
      connect_begin = (\<lambda>_ _. Inr [80]), connect_result = (\<lambda>_ _. system_error 111),
      HPX_MAX_NETWORK_RETRIES = 2, HPX_NETWORK_RETRIES_SLEEP = 100\<rparr>"

definition cached_env :: environment where
  "cached_env =
     \<lparr>cache_get = (\<lambda>d. Some (parcelport_connection 5 d)), cache_full = (\<lambda>_. False),
      connect_begin = (\<lambda>_ _. Inr [80]), connect_result = (\<lambda>_ _. success),
      HPX_MAX_NETWORK_RETRIES = 2, HPX_NETWORK_RETRIES_SLEEP = 100\<rparr>"

definition parcel1 :: parcel where
  "parcel1 = \<lparr>get_destination = (1, 7), parcel_data = 42\<rparr>"

subsection \<open>Cooperative execution context\<close>

text \<open>
  A work item that throws, after it has cleared the current-self marker; and a context
  that runs, bound to it.
\<close>

definition throwing_item :: thread_function where
  "throwing_item a tls = (Inl ''boom'', set_self None tls)"

definition bound_context :: coroutine_impl where
  "bound_context =
     \<lparr>m_state = ctx_running, m_fun = Some throwing_item, args = 0, m_result = None,
      m_exit_status = None, m_type_info = None\<rparr>"

subsection \<open>Type-erased callable\<close>

text \<open>
  The invariant of the container at an address, on its dispatch-table pointer and its
  object pointer. The dispatch-table pointer is not null. With the table of the empty
  state the object pointer is null. With the table of a type the object pointer is not
  null: it is the container's own inline buffer when the type fits the buffer, and a
  block of the heap when it does not. The invariant of a memory is that of every
  container in it.
\<close>

fun placed :: "nat \<Rightarrow> nat \<Rightarrow> vtable_ptr \<Rightarrow> pointer \<Rightarrow> bool" where
  "placed storage_size a null_vtable p = False"
| "placed storage_size a empty_function_vtable p = (p = nullptr)"
| "placed storage_size a (vtable T) nullptr = False"
| "placed storage_size a (vtable T) (storage_of b) = (b = a \<and> type_size T \<le> storage_size)"
| "placed storage_size a (vtable T) (heap_block n) = (type_size T > storage_size)"

definition function_invariant :: "memory \<Rightarrow> nat \<Rightarrow> basic_function \<Rightarrow> bool" where
  "function_invariant mem a fb = placed (function_storage_size mem) a (vptr fb) (object fb)"

definition invariant :: "memory \<Rightarrow> bool" where
  "invariant mem \<longleftrightarrow> (\<forall>a fb. containers mem a = Some fb \<longrightarrow> function_invariant mem a fb)"

text \<open>A sequence of calls of \<open>assign\<close> on one container.\<close>

fun assign_all :: "nat \<Rightarrow> callable list \<Rightarrow> memory \<Rightarrow> memory option" where
  "assign_all this [] mem = Some mem"
| "assign_all this (f # fs) mem = Option.bind (assign this f mem) (assign_all this fs)"

text \<open>What the invariant is about: the two pointers of the container at an address.\<close>

definition header :: "memory \<Rightarrow> nat \<Rightarrow> (vtable_ptr \<times> pointer) option" where
  "header mem a = map_option (\<lambda>fb. (vptr fb, object fb)) (containers mem a)"

text \<open>
  Values for the examples: on a machine with pointers of eight bytes, the container at
  address 0 holds a function pointer in its inline buffer, the container at address 1
  is empty.
\<close>

definition pointer_type :: ctype where
  "pointer_type = ctype ''void (*)()'' 8"

definition example_memory :: memory where
  "example_memory =
     \<lparr>sizeof_void_ptr = 8,
      containers =
        [0 \<mapsto> \<lparr>vptr = vtable pointer_type, object = storage_of 0,
                 storage = Some (callable pointer_type (function_pointer (Some 4096))),
                 serializable_vptr = serializable_vtable pointer_type\<rparr>,
         1 \<mapsto> \<lparr>vptr = empty_function_vtable, object = nullptr, storage = None,
                 serializable_vptr = null_serializable_vtable\<rparr>],
      heap = (\<lambda>_. None),
      allocations = 0\<rparr>"

section \<open>Properties of the parcel transport\<close>

subsection \<open>The pending-parcel map\<close>

lemma entry_enqueue:
  "entry (enqueue d p f m) d' =
     (if d' = d then (fst (entry m d) @ [p], snd (entry m d) @ [f]) else entry m d')"
  by (simp add: enqueue_def entry_def Let_def)

lemma swap_pending_eq:
  "swap_pending d m = (entry m d, m(d \<mapsto> ([], [])))"
  by (simp add: swap_pending_def entry_def Let_def)



lemma pending_emit [simp]: "pending_parcels (emit es s) = pending_parcels s"
  by (simp add: emit_def)

lemma trace_emit [simp]: "trace (emit es s) = trace s @ es"
  by (simp add: emit_def)

lemma connections_created_emit [simp]: "connections_created (emit es s) = connections_created s"
  by (simp add: emit_def)

lemma pending_write_or_readd [simp]:
  "pending_parcels (write_or_readd d c ps hs s) = pending_parcels s"
  by (simp add: write_or_readd_def)

lemma pending_send_parcel_connect [simp]:
  "pending_parcels (snd (send_parcel_connect env d addr s)) = pending_parcels s"
  by (simp add: send_parcel_connect_def Let_def split: prod.splits sum.splits)

lemma pending_send_parcel_enqueue [simp]:
  "pending_parcels (snd (send_parcel_enqueue env p f s)) =
     enqueue (get_prefix_from_gid (get_destination p)) p f (pending_parcels s)"
  by (simp add: send_parcel_enqueue_def Let_def)

lemma pending_send_parcel_drain [simp]:
  "pending_parcels (send_parcel_drain d c s) = (pending_parcels s)(d \<mapsto> ([], []))"
  by (simp add: send_parcel_drain_def swap_pending_eq split: prod.splits)






subsection \<open>The batched write\<close>





subsection \<open>\<^verbatim>\<open>send_parcel\<close>\<close>

lemma connect_endpoints_fail:
  "error \<noteq> success \<Longrightarrow> \<forall>ep \<in> set eps. net ep \<noteq> success \<Longrightarrow>
   fst (connect_endpoints net c eps error tr) \<noteq> success"
  by (induction eps arbitrary: error tr) (simp_all add: Let_def)

lemma connect_retry_fail:
  "error \<noteq> success \<Longrightarrow>
   \<forall>j. i \<le> j \<and> j < i + k \<longrightarrow>
     (\<exists>eps. connect_begin env (loc addr) j = Inr eps \<and> (\<forall>ep \<in> set eps. connect_result env j ep \<noteq> success)) \<Longrightarrow>
   \<exists>e. fst (connect_retry env addr c k i error tr) = Inr e \<and> e \<noteq> success"
proof (induction k arbitrary: i error tr)
  case 0
  then show ?case by simp
next
  case (Suc k)
  have "i \<le> i \<and> i < i + Suc k" by simp
  with Suc.prems(2) obtain eps where
    eps: "connect_begin env (loc addr) i = Inr eps" "\<forall>ep \<in> set eps. connect_result env i ep \<noteq> success"
    by blast
  obtain e1 tr1 where ce: "connect_endpoints (connect_result env i) c eps error tr = (e1, tr1)"
    by (cases "connect_endpoints (connect_result env i) c eps error tr")
  have e1: "e1 \<noteq> success"
    using connect_endpoints_fail [OF Suc.prems(1) eps(2), of c tr] ce by simp
  have "\<forall>j. Suc i \<le> j \<and> j < Suc i + k \<longrightarrow>
     (\<exists>eps. connect_begin env (loc addr) j = Inr eps \<and> (\<forall>ep \<in> set eps. connect_result env j ep \<noteq> success))"
    using Suc.prems(2) by simp
  from Suc.IH [OF e1 this] show ?case
    using eps ce e1 by simp
qed

text \<open>
  Claim C1. A call of \<open>send_parcel\<close> that finds no cached connection and a cache that
  is not full, and every connect attempt of which fails, on every endpoint the locality
  resolves to and on every sweep: it closes the new connection last, and throws
  \<^verbatim>\<open>network_error\<close> with the message of a socket error and of the locality it
  tried to connect to. The pending parcels of the destination are then those queued
  before the call, followed by the parcel and the handler of this call; no other
  destination is touched.
\<close>

theorem send_parcel_connect_fails:
  assumes get: "cache_get env (get_prefix_from_gid (get_destination p)) = None"
      and full: "\<not> cache_full env (get_prefix_from_gid (get_destination p))"
      and fail: "\<forall>i < nat (HPX_MAX_NETWORK_RETRIES env).
                   \<exists>eps. connect_begin env (loc addr) i = Inr eps \<and>
                     (\<forall>ep \<in> set eps. connect_result env i ep \<noteq> success)"
  shows "\<exists>e s'. send_parcel env p addr f s =
             (Inl (network_error ''parcelport::send_parcel'' (message_while_connecting e (loc addr))), s')
           \<and> e \<noteq> success
           \<and> last (trace s') = socket_close (parcelport_connection (connections_created s)
                                   (get_prefix_from_gid (get_destination p)))
           \<and> pending_parcels s' = enqueue (get_prefix_from_gid (get_destination p)) p f (pending_parcels s)
           \<and> entry (pending_parcels s') (get_prefix_from_gid (get_destination p)) =
               (fst (entry (pending_parcels s) (get_prefix_from_gid (get_destination p))) @ [p],
                snd (entry (pending_parcels s) (get_prefix_from_gid (get_destination p))) @ [f])"
proof -
  let ?d = "get_prefix_from_gid (get_destination p)"
  let ?c = "parcelport_connection (connections_created s) ?d"
  let ?run = "connect_retry env addr ?c (nat (HPX_MAX_NETWORK_RETRIES env)) 0 try_again ([] :: 'a event list)"
  have "\<forall>j. 0 \<le> j \<and> j < 0 + nat (HPX_MAX_NETWORK_RETRIES env) \<longrightarrow>
     (\<exists>eps. connect_begin env (loc addr) j = Inr eps \<and> (\<forall>ep \<in> set eps. connect_result env j ep \<noteq> success))"
    using fail by simp
  from connect_retry_fail [OF _ this, of try_again ?c "[]"]
  obtain e where e: "fst ?run = Inr e" "e \<noteq> success"
    by auto
  obtain tr where tr: "?run = (Inr e, tr)"
    using e(1) by (cases ?run) simp
  show ?thesis
    using get full e(2) tr
    by (simp add: send_parcel_def send_parcel_enqueue_def send_parcel_connect_def emit_def Let_def
          entry_enqueue)
qed

theorem send_parcel_connect_fails_witness:
  "cache_get unreachable_env 1 = None \<and> \<not> cache_full unreachable_env 1
   \<and> (\<exists>e s'. send_parcel unreachable_env parcel1 \<lparr>loc = ''node1''\<rparr> (logger 0) initial_parcelport =
             (Inl (network_error ''parcelport::send_parcel'' (message_while_connecting e ''node1'')), s')
           \<and> e \<noteq> success
           \<and> last (trace s') = socket_close (parcelport_connection 0 1)
           \<and> entry (pending_parcels s') 1 = ([parcel1], [logger 0]))"
  using send_parcel_connect_fails [of unreachable_env parcel1 "\<lparr>loc = ''node1''\<rparr>" "logger 0" initial_parcelport]
  by (auto simp add: unreachable_env_def parcel1_def initial_parcelport_def get_prefix_from_gid_def entry_def)

text \<open>
  Claim C8, as the code has it. Every call of \<open>send_parcel\<close> first asks the
  connection cache for a connection and then enqueues the parcel and the handler, on
  every path and before anything else. When the call ends, the pair is either still the
  last one queued for the destination, or it is the last of the batch handed to a
  connection for writing. A call that got a cached connection, or found the cache full,
  neither connects nor sleeps.
\<close>

theorem send_parcel_lookup_then_enqueue:
  "\<exists>rest. trace (snd (send_parcel env p addr f s)) =
       trace s @ connection_cache_get (get_prefix_from_gid (get_destination p))
                  (cache_get env (get_prefix_from_gid (get_destination p)))
              # pending_parcels_push_back (get_prefix_from_gid (get_destination p)) # rest
     \<and> (cache_get env (get_prefix_from_gid (get_destination p)) \<noteq> None
          \<or> cache_full env (get_prefix_from_gid (get_destination p)) \<longrightarrow> \<not> list_ex blocking rest)
     \<and> (entry (pending_parcels (snd (send_parcel env p addr f s))) (get_prefix_from_gid (get_destination p)) =
           (fst (entry (pending_parcels s) (get_prefix_from_gid (get_destination p))) @ [p],
            snd (entry (pending_parcels s) (get_prefix_from_gid (get_destination p))) @ [f])
         \<or> (\<exists>c. set_parcel c (fst (entry (pending_parcels s) (get_prefix_from_gid (get_destination p))) @ [p])
                   \<in> set rest
               \<and> async_write c (call_for_each
                     (snd (entry (pending_parcels s) (get_prefix_from_gid (get_destination p))) @ [f]))
                   \<in> set rest))"
proof -
  let ?d = "get_prefix_from_gid (get_destination p)"
  show ?thesis
  proof (cases "cache_get env ?d")
    case (Some c)
    then show ?thesis
      by (auto simp add: send_parcel_def send_parcel_enqueue_def Let_def send_parcel_drain_def
            swap_pending_eq write_or_readd_def entry_enqueue split: prod.splits)
  next
    case None
    show ?thesis
    proof (cases "cache_full env ?d")
      case True
      with None show ?thesis
        by (simp add: send_parcel_def send_parcel_enqueue_def Let_def send_parcel_connect_def entry_enqueue)
    next
      case False
      obtain r tr where cr: "connect_retry env addr (parcelport_connection (connections_created s) ?d)
          (nat (HPX_MAX_NETWORK_RETRIES env)) 0 try_again ([] :: 'a event list) = (r, tr)"
        by (cases "connect_retry env addr (parcelport_connection (connections_created s) ?d)
          (nat (HPX_MAX_NETWORK_RETRIES env)) 0 try_again ([] :: 'a event list)")
      show ?thesis
      proof (cases r)
        case (Inl ex)
        with None False cr show ?thesis
          by (simp add: send_parcel_def send_parcel_enqueue_def Let_def send_parcel_connect_def entry_enqueue)
      next
        case (Inr error)
        with None False cr show ?thesis
          by (auto simp add: send_parcel_def send_parcel_enqueue_def Let_def send_parcel_connect_def
              entry_enqueue send_parcel_drain_def swap_pending_eq write_or_readd_def split: prod.splits)
      qed
    qed
  qed
qed

theorem send_parcel_lookup_then_enqueue_witness:
  "trace (snd (send_parcel cached_env parcel1 \<lparr>loc = ''node1''\<rparr> (logger 0) initial_parcelport)) =
     [connection_cache_get 1 (Some (parcelport_connection 5 1)), pending_parcels_push_back 1,
      pending_parcels_swap 1, set_parcel (parcelport_connection 5 1) [parcel1],
      async_write (parcelport_connection 5 1) (call_for_each [logger 0])]
   \<and> \<not> list_ex blocking [pending_parcels_swap 1, set_parcel (parcelport_connection 5 1) [parcel1],
      async_write (parcelport_connection 5 1) (call_for_each [logger 0])]"
  using send_parcel_lookup_then_enqueue [of cached_env parcel1 "\<lparr>loc = ''node1''\<rparr>" "logger 0" initial_parcelport]
  by (simp add: send_parcel_def send_parcel_enqueue_def send_parcel_drain_def swap_pending_def
        write_or_readd_def enqueue_def entry_def emit_def Let_def
        cached_env_def parcel1_def initial_parcelport_def get_prefix_from_gid_def)

text \<open>
  Against claim C8 as it is stated: with no cached connection, a cache that is not full
  and an endpoint that refuses, the call looks the cache up before it enqueues, and it
  waits for the network: it connects twice and sleeps twice before it gives up.
\<close>

theorem send_parcel_lookup_first_and_blocking:
  "trace (snd (send_parcel unreachable_env parcel1 \<lparr>loc = ''node1''\<rparr> (logger 0) initial_parcelport)) =
     [connection_cache_get 1 None, pending_parcels_push_back 1, connection_cache_full 1 False,
      new_parcelport_connection (parcelport_connection 0 1),
      socket_close (parcelport_connection 0 1),
      socket_connect (parcelport_connection 0 1) 80 (system_error 111),
      this_thread_sleep 100,
      socket_close (parcelport_connection 0 1),
      socket_connect (parcelport_connection 0 1) 80 (system_error 111),
      this_thread_sleep 100,
      socket_close (parcelport_connection 0 1)]"
  by (simp add: send_parcel_def send_parcel_enqueue_def send_parcel_connect_def emit_def Let_def
        unreachable_env_def parcel1_def initial_parcelport_def get_prefix_from_gid_def numeral_2_eq_2)

subsection \<open>\<^verbatim>\<open>handle_read_completion\<close>\<close>



subsection \<open>\<^verbatim>\<open>send_pending_parcels\<close>\<close>

text \<open>
  Claim C10. A call of \<open>send_pending_parcels\<close> to which the connection cache gives no
  connection returns at once: the lookup is all it does. The pending parcels of every
  destination are as before, and nothing is written, scheduled or given to the cache.
\<close>

theorem send_pending_parcels_no_connection:
  "cache_get env prefix = None \<Longrightarrow>
     send_pending_parcels env prefix s = s\<lparr>trace := trace s @ [connection_cache_get prefix None]\<rparr>
   \<and> pending_parcels (send_pending_parcels env prefix s) = pending_parcels s"
  by (simp add: send_pending_parcels_def emit_def)

theorem send_pending_parcels_no_connection_witness:
  "cache_get unreachable_env 1 = None \<and>
   send_pending_parcels unreachable_env 1
       (snd (send_parcel_enqueue unreachable_env parcel1 (logger 0) initial_parcelport))
     = \<lparr>pending_parcels = [1 \<mapsto> ([parcel1], [logger 0])], parcels_received = [], connections_created = 0,
        trace = [connection_cache_get 1 None, pending_parcels_push_back 1, connection_cache_get 1 None]\<rparr>"
  using send_pending_parcels_no_connection [of unreachable_env 1
          "snd (send_parcel_enqueue unreachable_env parcel1 (logger 0) initial_parcelport)"]
  by (simp add: unreachable_env_def send_parcel_enqueue_def initial_parcelport_def parcel1_def
        get_prefix_from_gid_def enqueue_def entry_def emit_def Let_def)

section \<open>Properties of the cooperative execution context\<close>

lemma guarded_call_restores_self:
  "guarded_call this ctx tls = Some (r, tls') \<Longrightarrow> get_self tls' = get_self tls"
  by (auto simp add: guarded_call_def Let_def get_self_def set_self_def
        split: prod.splits sum.splits if_splits)

lemma iteration_restores_self:
  "iteration this status result_last ctx tls = Some (status', result_last', ctx', tls') \<Longrightarrow>
   get_self tls' = get_self tls"
  by (auto simp add: iteration_def split: option.splits prod.splits sum.splits
        dest: guarded_call_restores_self)

text \<open>
  Claim C2. A context whose bound work item throws: the turn of the loop does not pass
  the exception on, it ends in \<^verbatim>\<open>do_return\<close>, called with
  \<^verbatim>\<open>ctx_exited_abnormally\<close> and the exception that was thrown. What the resumer
  then sees is a context that is Terminated, with that exit status and that exception as
  its error payload, on a thread whose current-self marker is the one from before the
  entry. The marker is restored by every turn that ends, however the work item left.
\<close>

theorem throwing_work_item_is_captured:
  assumes "m_fun ctx = Some f"
      and "f (args ctx) (set_self (Some (coroutine_self this (get_self tls))) tls) = (Inl ex, tls')"
  shows "\<exists>ctx' tls''.
             iteration this status result_last ctx tls = Some (ctx_exited_abnormally, result_last, ctx', tls'')
           \<and> ctx' = do_return ctx_exited_abnormally (Some ex) (coroutine_reset ctx)
           \<and> m_state ctx' = ctx_terminated
           \<and> m_exit_status ctx' = Some ctx_exited_abnormally
           \<and> m_type_info ctx' = Some ex
           \<and> get_self tls'' = get_self tls
           \<and> coroutine_impl_call this [] ctx tls = Some [(ctx', tls'')]
           \<and> (\<forall>status2 result2 ctx2 tls2 r.
                 iteration this status2 result2 ctx2 tls2 = Some r \<longrightarrow>
                 get_self (snd (snd (snd r))) = get_self tls2)"
proof -
  have "\<forall>status2 result2 ctx2 tls2 r.
          iteration this status2 result2 ctx2 tls2 = Some r \<longrightarrow> get_self (snd (snd (snd r))) = get_self tls2"
    using iteration_restores_self by (metis prod.collapse)
  with assms show ?thesis
    by (simp add: iteration_def guarded_call_def call_m_fun_def Let_def do_return_def coroutine_reset_def
          get_self_def set_self_def coroutine_impl_call_def)
qed

theorem throwing_work_item_is_captured_witness:
  "m_fun bound_context = Some throwing_item
   \<and> coroutine_impl_call 3 [] bound_context \<lparr>current_self = Some (coroutine_self 1 None)\<rparr> =
       Some [(\<lparr>m_state = ctx_terminated, m_fun = None, args = 0, m_result = None,
               m_exit_status = Some ctx_exited_abnormally, m_type_info = Some ''boom''\<rparr>,
              \<lparr>current_self = Some (coroutine_self 1 None)\<rparr>)]"
  using throwing_work_item_is_captured [of bound_context throwing_item 3
          "\<lparr>current_self = Some (coroutine_self 1 None)\<rparr>" "''boom''" "\<lparr>current_self = None\<rparr>"
          ctx_exited_return "(terminated, invalid_thread_id)"]
  by (simp add: bound_context_def throwing_item_def coroutine_impl_call_def iteration_def guarded_call_def
        call_m_fun_def Let_def do_return_def coroutine_reset_def get_self_def set_self_def)

section \<open>Properties of the type-erased callable\<close>

subsection \<open>What the operations do to the two pointers\<close>

lemma invariant_header:
  "invariant mem \<longleftrightarrow> (\<forall>a v p. header mem a = Some (v, p) \<longrightarrow> placed (function_storage_size mem) a v p)"
  by (auto simp add: invariant_def function_invariant_def header_def)

lemma placed_nonnull:
  "placed n a v p \<Longrightarrow> v \<noteq> null_vtable \<and> ((p = nullptr) = (v = empty_function_vtable))"
  by (cases v; cases p) simp_all

lemma fss_modify [simp]: "function_storage_size (modify a g mem) = function_storage_size mem"
  by (simp add: modify_def function_storage_size_def)

lemma allocations_modify [simp]: "allocations (modify a g mem) = allocations mem"
  by (simp add: modify_def)

lemma containers_modify:
  "containers (modify a g mem) b = (if b = a then map_option g (containers mem a) else containers mem b)"
  by (simp add: modify_def)

lemma header_modify_storage [simp]:
  "header (modify a (\<lambda>fb. fb\<lparr>storage := v\<rparr>) mem) = header mem"
  by (rule ext) (simp add: header_def containers_modify option.map_comp comp_def)

lemma header_modify_serializable [simp]:
  "header (modify a (\<lambda>fb. fb\<lparr>serializable_vptr := v\<rparr>) mem) = header mem"
  by (rule ext) (simp add: header_def containers_modify option.map_comp comp_def)

lemma header_modify_vptr:
  "header (modify a (\<lambda>fb. fb\<lparr>vptr := v\<rparr>) mem) =
     (header mem)(a := map_option (\<lambda>(_, p). (v, p)) (header mem a))"
  by (rule ext) (simp add: header_def containers_modify option.map_comp comp_def)

lemma header_modify_object:
  "header (modify a (\<lambda>fb. fb\<lparr>object := p\<rparr>) mem) =
     (header mem)(a := map_option (\<lambda>(v, _). (v, p)) (header mem a))"
  by (rule ext) (simp add: header_def containers_modify option.map_comp comp_def)

lemma dom_containers_modify [simp]: "dom (containers (modify a g mem)) = dom (containers mem)"
  by (auto simp add: containers_modify split: if_splits)

lemma header_heap_update [simp]: "header (mem\<lparr>heap := h\<rparr>) = header mem"
  by (rule ext) (simp add: header_def)

lemma header_allocations_update [simp]: "header (mem\<lparr>allocations := n\<rparr>) = header mem"
  by (rule ext) (simp add: header_def)

lemma fss_heap_update [simp]: "function_storage_size (mem\<lparr>heap := h\<rparr>) = function_storage_size mem"
  by (simp add: function_storage_size_def)

lemma fss_allocations_update [simp]:
  "function_storage_size (mem\<lparr>allocations := n\<rparr>) = function_storage_size mem"
  by (simp add: function_storage_size_def)

lemma write_at_frame:
  "write_at p v mem = Some mem' \<Longrightarrow>
   header mem' = header mem \<and> function_storage_size mem' = function_storage_size mem
   \<and> allocations mem' = allocations mem \<and> dom (containers mem') = dom (containers mem)"
proof (cases p)
  case nullptr
  then show "write_at p v mem = Some mem' \<Longrightarrow> ?thesis" by (simp add: write_at_def)
next
  case (storage_of a)
  assume "write_at p v mem = Some mem'"
  with storage_of have "mem' = modify a (\<lambda>fb. fb\<lparr>storage := v\<rparr>) mem" by (simp add: write_at_def)
  then show ?thesis by simp
next
  case (heap_block n)
  assume "write_at p v mem = Some mem'"
  with heap_block have "mem' = mem\<lparr>heap := (heap mem)(n := v)\<rparr>" by (simp add: write_at_def)
  then show ?thesis by simp
qed

lemma write_at_defined: "p \<noteq> nullptr \<Longrightarrow> \<exists>mem'. write_at p v mem = Some mem'"
  by (cases p) (simp_all add: write_at_def)

lemma allocate_frame:
  "allocate T sp n mem = (p, mem') \<Longrightarrow>
   header mem' = header mem \<and> function_storage_size mem' = function_storage_size mem
   \<and> dom (containers mem') = dom (containers mem)
   \<and> p = (if type_size T > n then heap_block (allocations mem) else sp)
   \<and> allocations mem' = (if type_size T > n then Suc (allocations mem) else allocations mem)"
  by (cases "type_size T > n") (auto simp add: allocate_def)


lemma header_cases:
  "header mem a = Some (v, p) \<longleftrightarrow> (\<exists>fb. containers mem a = Some fb \<and> vptr fb = v \<and> object fb = p)"
  by (auto simp add: header_def)

lemma destroy_frame:
  assumes "header mem this = Some (v, p)" and "placed (function_storage_size mem) this v p"
  shows "\<exists>mem'. destroy this mem = Some mem' \<and> header mem' = header mem
           \<and> function_storage_size mem' = function_storage_size mem
           \<and> allocations mem' = allocations mem"
proof -
  from assms(1) obtain fb where fb: "containers mem this = Some fb" "vptr fb = v" "object fb = p"
    by (auto simp add: header_cases)
  show ?thesis
  proof (cases v)
    case null_vtable
    with assms(2) show ?thesis by simp
  next
    case empty_function_vtable
    with assms(2) fb show ?thesis by (simp add: destroy_def)
  next
    case (vtable T)
    show ?thesis
    proof (cases p)
      case nullptr
      with vtable assms(2) show ?thesis by simp
    next
      case (storage_of b)
      with vtable assms(2) fb show ?thesis
        by (simp add: destroy_def vtable_deallocate_def write_at_def)
    next
      case (heap_block n)
      with vtable assms(2) fb show ?thesis
        by (simp add: destroy_def vtable_deallocate_def write_at_def)
    qed
  qed
qed

lemma reset_frame:
  assumes "header mem this = Some (v, p)" and "placed (function_storage_size mem) this v p"
  shows "\<exists>mem'. reset this mem = Some mem'
           \<and> header mem' = (header mem)(this \<mapsto> (empty_function_vtable, nullptr))
           \<and> function_storage_size mem' = function_storage_size mem
           \<and> allocations mem' = allocations mem"
proof -
  from destroy_frame [OF assms] obtain mem1 where
    d: "destroy this mem = Some mem1" "header mem1 = header mem"
       "function_storage_size mem1 = function_storage_size mem" "allocations mem1 = allocations mem"
    by blast
  then show ?thesis
    using assms(1)
    by (simp add: reset_def header_modify_vptr header_modify_object get_empty_function_vtable_def)
qed


lemma read_at_defined:
  "(\<exists>x. read_at p mem = Some x) = (case p of nullptr \<Rightarrow> False | storage_of a \<Rightarrow> header mem a \<noteq> None | heap_block n \<Rightarrow> True)"
  by (cases p) (simp_all add: read_at_def header_def)

lemma read_at_header:
  "header mem' = header mem \<Longrightarrow> (\<exists>x. read_at p mem' = Some x) = (\<exists>x. read_at p mem = Some x)"
  by (simp only: read_at_defined)

lemma read_at_placed:
  "header mem a = Some (v, p) \<Longrightarrow> placed n a v p \<Longrightarrow> p \<noteq> nullptr \<Longrightarrow> \<exists>x. read_at p mem = Some x"
  by (cases v; cases p) (simp_all only: read_at_defined, simp_all)

lemma vtable_copy_frame:
  assumes "\<exists>x. read_at src mem = Some x" and "sp \<noteq> nullptr"
  shows "\<exists>mem'. vtable_copy (vtable T) sp n src d mem =
             Some (if type_size T > n then heap_block (allocations mem) else sp, mem')
           \<and> header mem' = header mem
           \<and> function_storage_size mem' = function_storage_size mem"
proof -
  obtain mem1 where m1: "(if d then write_at sp None mem else Some mem) = Some mem1"
    using write_at_defined [OF assms(2), of None mem] by (cases d) auto
  have f1: "header mem1 = header mem \<and> function_storage_size mem1 = function_storage_size mem
              \<and> allocations mem1 = allocations mem"
  proof (cases d)
    case True
    with m1 have "write_at sp None mem = Some mem1" by simp
    from write_at_frame [OF this] show ?thesis by simp
  next
    case False
    with m1 show ?thesis by simp
  qed
  obtain buffer mem2 where a: "allocate T sp n mem1 = (buffer, mem2)"
    by (cases "allocate T sp n mem1")
  note f2 = allocate_frame [OF a]
  have "header mem2 = header mem" using f1 f2 by simp
  from read_at_header [OF this, of src] assms(1)
  obtain x where x: "read_at src mem2 = Some x" by blast
  have "buffer \<noteq> nullptr" using f2 assms(2) by (simp split: if_splits)
  from write_at_defined [OF this, of x mem2] obtain mem3 where w: "write_at buffer x mem2 = Some mem3"
    by blast
  note f3 = write_at_frame [OF w]
  have "vtable_copy (vtable T) sp n src d mem = Some (buffer, mem3)"
    using m1 a x w by (simp add: vtable_copy_def)
  moreover have "buffer = (if type_size T > n then heap_block (allocations mem) else sp)"
    using f1 f2 by simp
  moreover have "header mem3 = header mem" using f1 f2 f3 by simp
  moreover have "function_storage_size mem3 = function_storage_size mem" using f1 f2 f3 by simp
  ultimately show ?thesis by simp
qed


lemma header_upd_same:
  "header mem a = Some (v, p) \<Longrightarrow>
   (header mem)(a := map_option (\<lambda>(v, _). (v, q)) (header mem a)) = (header mem)(a \<mapsto> (v, q))"
  "header mem a = Some (v, p) \<Longrightarrow>
   (header mem)(a := map_option (\<lambda>(_, p). (w, p)) (header mem a)) = (header mem)(a \<mapsto> (w, p))"
  by simp_all

lemma heap_modify [simp]: "heap (modify a g mem) = heap mem"
  by (simp add: modify_def)

lemma read_at_modify_object [simp]:
  "read_at p (modify a (\<lambda>fb. fb\<lparr>object := q\<rparr>) mem) = read_at p mem"
  by (cases p) (simp_all add: read_at_def containers_modify option.map_comp comp_def)

lemma read_at_write_at:
  "write_at p x mem = Some mem' \<Longrightarrow> (\<exists>y. read_at p mem = Some y) \<Longrightarrow> read_at p mem' = Some x"
  by (cases p) (auto simp add: read_at_def write_at_def containers_modify)

lemma assign_same_type:
  assumes h: "header mem this = Some (vtable (type_of f), p)"
      and p: "p \<noteq> nullptr"
      and ne: "\<not> is_empty_function f"
  shows "\<exists>mem'. assign this f mem = Some mem'
           \<and> header mem' = header mem
           \<and> function_storage_size mem' = function_storage_size mem
           \<and> allocations mem' = allocations mem
           \<and> ((\<exists>y. read_at p mem = Some y) \<longrightarrow> read_at p mem' = Some (Some f))"
proof -
  from h obtain fb where fb: "containers mem this = Some fb" "vptr fb = vtable (type_of f)" "object fb = p"
    by (auto simp add: header_cases)
  from write_at_defined [OF p, of None mem] obtain mem1 where w1: "write_at p None mem = Some mem1"
    by blast
  note f1 = write_at_frame [OF w1]
  from write_at_defined [OF p, of "Some f" mem1] obtain mem2 where w2: "write_at p (Some f) mem1 = Some mem2"
    by blast
  note f2 = write_at_frame [OF w2]
  have r: "(\<exists>y. read_at p mem = Some y) \<longrightarrow> (\<exists>y. read_at p mem1 = Some y)"
    using read_at_header [of mem1 mem p] f1 by simp
  have a: "assign this f mem = Some (modify this (\<lambda>fb. fb\<lparr>object := p\<rparr>) mem2)"
    using ne fb p w1 w2 by (simp add: assign_def get_vtable_def HPX_ASSERT_def)
  have "header mem2 this = Some (vtable (type_of f), p)" using h f1 f2 by simp
  then have "header (modify this (\<lambda>fb. fb\<lparr>object := p\<rparr>) mem2) = header mem2"
    by (simp add: header_modify_object header_upd_same(1) fun_upd_idem)
  with a f1 f2 r read_at_write_at [OF w2] show ?thesis by simp
qed

lemma assign_other_type:
  assumes h: "header mem this = Some (v, p)"
      and pl: "placed (function_storage_size mem) this v p"
      and ne: "\<not> is_empty_function f"
      and v: "v \<noteq> vtable (type_of f)"
  shows "\<exists>mem'. assign this f mem = Some mem'
           \<and> header mem' = (header mem)(this \<mapsto> (vtable (type_of f),
                 if type_size (type_of f) > function_storage_size mem
                 then heap_block (allocations mem) else storage_of this))
           \<and> function_storage_size mem' = function_storage_size mem"
proof -
  from h obtain fb where fb: "containers mem this = Some fb" "vptr fb = v" "object fb = p"
    by (auto simp add: header_cases)
  from destroy_frame [OF h pl] obtain mem1 where
    d: "destroy this mem = Some mem1" and f1: "header mem1 = header mem"
       "function_storage_size mem1 = function_storage_size mem" "allocations mem1 = allocations mem"
    by blast
  let ?mem2 = "modify this (\<lambda>fb. fb\<lparr>vptr := vtable (type_of f)\<rparr>) mem1"
  have h2: "header ?mem2 = (header mem)(this \<mapsto> (vtable (type_of f), p))"
    using h f1 by (simp add: header_modify_vptr)
  obtain buffer mem3 where al: "allocate (type_of f) (storage_of this) (function_storage_size ?mem2) ?mem2 = (buffer, mem3)"
    by (cases "allocate (type_of f) (storage_of this) (function_storage_size ?mem2) ?mem2")
  note f3 = allocate_frame [OF al]
  have b: "buffer = (if type_size (type_of f) > function_storage_size mem
                 then heap_block (allocations mem) else storage_of this)"
    using f3 f1 by simp
  then have "buffer \<noteq> nullptr" by simp
  from write_at_defined [OF this, of "Some f" mem3] obtain mem4 where w: "write_at buffer (Some f) mem3 = Some mem4"
    by blast
  note f4 = write_at_frame [OF w]
  have a: "assign this f mem = Some (modify this (\<lambda>fb. fb\<lparr>object := buffer\<rparr>) mem4)"
    using ne fb v d al w by (simp add: assign_def get_vtable_def)
  have "header mem4 = (header mem)(this \<mapsto> (vtable (type_of f), p))"
    using h2 f3 f4 by simp
  then have "header (modify this (\<lambda>fb. fb\<lparr>object := buffer\<rparr>) mem4) =
      (header mem)(this \<mapsto> (vtable (type_of f), buffer))"
    by (simp add: header_modify_object)
  with a b f1 f3 f4 show ?thesis by simp
qed


lemma invariant_same_header:
  "invariant mem \<Longrightarrow> header mem' = header mem \<Longrightarrow>
   function_storage_size mem' = function_storage_size mem \<Longrightarrow> invariant mem'"
  by (simp add: invariant_header)

lemma assign_all_same_type:
  assumes "\<forall>f \<in> set fs. type_of f = T \<and> \<not> is_empty_function f"
      and "header mem this = Some (vtable T, p)" and "p \<noteq> nullptr"
  shows "\<exists>mem'. assign_all this fs mem = Some mem' \<and> header mem' = header mem
           \<and> function_storage_size mem' = function_storage_size mem
           \<and> allocations mem' = allocations mem"
  using assms
proof (induction fs arbitrary: mem)
  case Nil
  then show ?case by simp
next
  case (Cons f fs)
  then have f: "type_of f = T" "\<not> is_empty_function f" by simp_all
  from assign_same_type [of mem this f p] Cons.prems f obtain mem1 where
    m1: "assign this f mem = Some mem1" "header mem1 = header mem"
        "function_storage_size mem1 = function_storage_size mem" "allocations mem1 = allocations mem"
    by auto
  have "\<forall>f \<in> set fs. type_of f = T \<and> \<not> is_empty_function f" using Cons.prems(1) by simp
  from Cons.IH [OF this, of mem1] Cons.prems(2,3) m1 show ?case by simp
qed

lemma invariant_upd1:
  "invariant mem \<Longrightarrow> function_storage_size mem' = function_storage_size mem \<Longrightarrow>
   header mem' = (header mem)(a \<mapsto> (v, p)) \<Longrightarrow>
   placed (function_storage_size mem) a v p \<Longrightarrow> invariant mem'"
  by (simp add: invariant_header)

lemma invariant_upd2:
  "invariant mem \<Longrightarrow> function_storage_size mem' = function_storage_size mem \<Longrightarrow>
   header mem' = (header mem)(a \<mapsto> (v, p), b \<mapsto> (w, q)) \<Longrightarrow>
   a = b \<or> placed (function_storage_size mem) a v p \<Longrightarrow>
   placed (function_storage_size mem) b w q \<Longrightarrow> invariant mem'"
  by (auto simp add: invariant_header)

lemma invariant_placed:
  "invariant mem \<Longrightarrow> containers mem a = Some fb \<Longrightarrow>
   header mem a = Some (vptr fb, object fb) \<and> placed (function_storage_size mem) a (vptr fb) (object fb)"
  by (simp add: invariant_def function_invariant_def header_def)

lemma placed_allocated:
  "placed n a (vtable T) (if n < type_size T then heap_block k else storage_of a)"
  by simp

lemma header_default:
  "header (function_base_default this mem) = (header mem)(this \<mapsto> (empty_function_vtable, nullptr))
   \<and> function_storage_size (function_base_default this mem) = function_storage_size mem"
  by (simp add: function_base_default_def header_def function_storage_size_def
        get_empty_function_vtable_def fun_eq_iff)

lemma default_invariant: "invariant mem \<Longrightarrow> invariant (function_base_default this mem)"
  using header_default [of this mem] by (auto intro: invariant_upd1)

lemma reset_invariant:
  assumes "invariant mem" and "containers mem this = Some fb"
  shows "\<exists>mem'. reset this mem = Some mem' \<and> invariant mem'
           \<and> header mem' = (header mem)(this \<mapsto> (empty_function_vtable, nullptr))
           \<and> function_storage_size mem' = function_storage_size mem"
proof -
  note hp = invariant_placed [OF assms]
  from reset_frame [of mem this "vptr fb" "object fb"] hp obtain mem' where
    r: "reset this mem = Some mem'" "header mem' = (header mem)(this \<mapsto> (empty_function_vtable, nullptr))"
       "function_storage_size mem' = function_storage_size mem"
    by blast
  from invariant_upd1 [OF assms(1) r(3) r(2)] r show ?thesis by simp
qed

lemma assign_invariant:
  assumes "invariant mem" and "containers mem this = Some fb"
  shows "\<exists>mem'. assign this f mem = Some mem' \<and> invariant mem' \<and> header mem' this \<noteq> None"
proof (cases "is_empty_function f")
  case True
  with reset_invariant [OF assms] show ?thesis by (auto simp add: assign_def)
next
  case False
  note hp = invariant_placed [OF assms]
  show ?thesis
  proof (cases "vptr fb = vtable (type_of f)")
    case True
    with hp have h: "header mem this = Some (vtable (type_of f), object fb)"
      and pl: "placed (function_storage_size mem) this (vtable (type_of f)) (object fb)" by simp_all
    from pl have "object fb \<noteq> nullptr" by (cases "object fb") simp_all
    from assign_same_type [OF h this False] obtain mem' where
      a: "assign this f mem = Some mem'" "header mem' = header mem"
         "function_storage_size mem' = function_storage_size mem"
      by blast
    from invariant_same_header [OF assms(1) a(2,3)] a(1,2) h show ?thesis by simp
  next
    case v: False
    from assign_other_type [of mem this "vptr fb" "object fb" f] hp False v obtain mem' where
      a: "assign this f mem = Some mem'"
         "header mem' = (header mem)(this \<mapsto> (vtable (type_of f),
                 if type_size (type_of f) > function_storage_size mem
                 then heap_block (allocations mem) else storage_of this))"
         "function_storage_size mem' = function_storage_size mem"
      by blast
    from invariant_upd1 [OF assms(1) a(3) a(2) placed_allocated] a(1,2) show ?thesis by simp
  qed
qed

lemma header_new:
  "header (mem\<lparr>containers := (containers mem)(this \<mapsto> fb)\<rparr>) = (header mem)(this \<mapsto> (vptr fb, object fb))
   \<and> function_storage_size (mem\<lparr>containers := (containers mem)(this \<mapsto> fb)\<rparr>) = function_storage_size mem"
  by (simp add: header_def function_storage_size_def fun_eq_iff)

lemma copy_invariant:
  assumes "invariant mem" and "containers mem other = Some fo"
  shows "\<exists>mem'. function_base_copy this other mem = Some mem' \<and> invariant mem'"
proof -
  note hp = invariant_placed [OF assms]
  let ?new = "\<lparr>vptr = vptr fo, object = object fo, storage = None, serializable_vptr = serializable_vptr fo\<rparr>"
  let ?mem1 = "mem\<lparr>containers := (containers mem)(this \<mapsto> ?new)\<rparr>"
  have h1: "header ?mem1 = (header mem)(this \<mapsto> (vptr fo, object fo))"
    and s1: "function_storage_size ?mem1 = function_storage_size mem"
    using header_new [of mem this ?new] by simp_all
  show ?thesis
  proof (cases "object fo = nullptr")
    case True
    then have "function_base_copy this other mem = Some ?mem1"
      using assms(2) by (simp add: function_base_copy_def)
    moreover have "placed (function_storage_size mem) this (vptr fo) (object fo)"
      using hp True by (cases "vptr fo") simp_all
    ultimately show ?thesis using invariant_upd1 [OF assms(1) s1 h1] by simp
  next
    case False
    with hp obtain T where T: "vptr fo = vtable T" by (cases "vptr fo") auto
    have "header ?mem1 other \<noteq> None" using h1 hp by simp
    then have "\<exists>x. read_at (object fo) ?mem1 = Some x"
      using False hp T by (cases "object fo") (simp_all only: read_at_defined, simp_all)
    from vtable_copy_frame [OF this, of "storage_of this" T "function_storage_size ?mem1" False]
    obtain mem2 where
      c: "vtable_copy (vtable T) (storage_of this) (function_storage_size ?mem1) (object fo) False ?mem1 =
            Some (if type_size T > function_storage_size ?mem1 then heap_block (allocations ?mem1)
                  else storage_of this, mem2)"
         "header mem2 = header ?mem1" "function_storage_size mem2 = function_storage_size ?mem1"
      by auto
    let ?p = "if type_size T > function_storage_size mem then heap_block (allocations mem) else storage_of this"
    have "function_base_copy this other mem = Some (modify this (\<lambda>fb. fb\<lparr>object := ?p\<rparr>) mem2)"
      using assms(2) False T c(1) s1 by (simp add: function_base_copy_def)
    moreover have "header (modify this (\<lambda>fb. fb\<lparr>object := ?p\<rparr>) mem2) = (header mem)(this \<mapsto> (vtable T, ?p))"
      using c(2) h1 T by (simp add: header_modify_object)
    moreover have "function_storage_size (modify this (\<lambda>fb. fb\<lparr>object := ?p\<rparr>) mem2) = function_storage_size mem"
      using c(3) s1 by simp
    ultimately show ?thesis
      using invariant_upd1 [OF assms(1) _ _ placed_allocated] by blast
  qed
qed

lemma move_invariant:
  assumes "invariant mem" and "containers mem other = Some fo"
  shows "\<exists>mem'. function_base_move this other mem = Some mem' \<and> invariant mem'
           \<and> header mem' other = Some (empty_function_vtable, nullptr)"
proof -
  note hp = invariant_placed [OF assms]
  let ?new = "\<lparr>vptr = vptr fo, object = object fo, storage = None, serializable_vptr = serializable_vptr fo\<rparr>"
  let ?mem1 = "mem\<lparr>containers := (containers mem)(this \<mapsto> ?new)\<rparr>"
  let ?p = "if object fo = storage_of other then storage_of this else object fo"
  let ?mem2 = "if object fo = storage_of other
                 then modify this (\<lambda>fb. fb\<lparr>object := storage_of this\<rparr>)
                        (modify this (\<lambda>fb. fb\<lparr>storage := storage fo\<rparr>) ?mem1)
                 else ?mem1"
  let ?mem4 = "modify other (\<lambda>fb. fb\<lparr>object := nullptr\<rparr>)
                 (modify other (\<lambda>fb. fb\<lparr>vptr := get_empty_function_vtable\<rparr>) ?mem2)"
  have h1: "header ?mem1 = (header mem)(this \<mapsto> (vptr fo, object fo))"
    and s1: "function_storage_size ?mem1 = function_storage_size mem"
    using header_new [of mem this ?new] by simp_all
  have h2: "header ?mem2 = (header mem)(this \<mapsto> (vptr fo, ?p))"
    by (simp add: header_modify_object header_new)
  have s2: "function_storage_size ?mem2 = function_storage_size mem"
    by (simp add: header_new)
  have o2: "header ?mem2 other \<noteq> None" using h2 hp by simp
  then obtain v p where vp: "header ?mem2 other = Some (v, p)" by (cases "header ?mem2 other") auto
  have h4: "header ?mem4 = (header mem)(this \<mapsto> (vptr fo, ?p), other \<mapsto> (empty_function_vtable, nullptr))"
    using vp by (simp only: header_modify_object header_modify_vptr h2 get_empty_function_vtable_def) simp
  have s4: "function_storage_size ?mem4 = function_storage_size mem"
    using s2 by simp
  have m: "function_base_move this other mem = Some ?mem4"
    using assms(2) by (simp add: function_base_move_def Let_def)
  have pl: "placed (function_storage_size mem) this (vptr fo) ?p"
    using hp by (cases "vptr fo"; cases "object fo") auto
  have "invariant ?mem4"
    by (rule invariant_upd2 [OF assms(1) s4 h4]) (simp_all add: pl)
  with m h4 show ?thesis by simp
qed


lemma storage_size_le_size_max: "function_storage_size mem \<le> size_max mem"
proof -
  have "8 * sizeof_void_ptr mem < 2 ^ (8 * sizeof_void_ptr mem)" by (rule less_exp)
  then have "3 * sizeof_void_ptr mem \<le> 2 ^ (8 * sizeof_void_ptr mem) - 1" by arith
  then show ?thesis by (simp only: function_storage_size_def size_max_def)
qed

lemma copy_assign_invariant:
  assumes "invariant mem" and "containers mem this = Some fb" and "containers mem other = Some fo"
  shows "\<exists>mem'. copy_assign this other mem = Some mem' \<and> invariant mem'"
proof -
  note hp = invariant_placed [OF assms(1,2)]
  note ho = invariant_placed [OF assms(1,3)]
  show ?thesis
  proof (cases "vptr fb = vptr fo")
    case same: True
    show ?thesis
    proof (cases "this \<noteq> other \<and> object fb \<noteq> nullptr")
      case False
      then have "copy_assign this other mem = Some mem"
        using assms(2,3) same by (auto simp add: copy_assign_def)
      with assms(1) show ?thesis by simp
    next
      case True
      with hp obtain T where T: "vptr fb = vtable T" by (cases "vptr fb") auto
      have "placed (function_storage_size mem) other (vtable T) (object fo)"
        using T same ho by simp
      then have o: "object fo \<noteq> nullptr" by (cases "object fo") simp_all
      have r: "\<exists>x. read_at (object fo) mem = Some x"
        using read_at_placed [of mem other "vptr fo" "object fo"] ho o by blast
      from True have sp: "object fb \<noteq> nullptr" by simp
      let ?p = "if type_size T > size_max mem then heap_block (allocations mem) else object fb"
      from vtable_copy_frame [OF r sp, of T "size_max mem" True] obtain mem1 where
        c: "vtable_copy (vtable T) (object fb) (size_max mem) (object fo) True mem = Some (?p, mem1)"
           "header mem1 = header mem" "function_storage_size mem1 = function_storage_size mem"
        by auto
      have "copy_assign this other mem = Some (modify this (\<lambda>fb. fb\<lparr>object := ?p\<rparr>) mem1)"
        using assms(2,3) same True T o c(1) by (simp add: copy_assign_def HPX_ASSERT_def)
      moreover have "header (modify this (\<lambda>fb. fb\<lparr>object := ?p\<rparr>) mem1) = (header mem)(this \<mapsto> (vtable T, ?p))"
        using c(2) hp T by (simp add: header_modify_object)
      moreover have "function_storage_size (modify this (\<lambda>fb. fb\<lparr>object := ?p\<rparr>) mem1) = function_storage_size mem"
        using c(3) by simp
      moreover have "placed (function_storage_size mem) this (vtable T) ?p"
        using hp T storage_size_le_size_max [of mem] by (cases "object fb") auto
      ultimately show ?thesis using invariant_upd1 [OF assms(1)] by blast
    qed
  next
    case diff: False
    then have neq: "this \<noteq> other" using assms(2,3) by auto
    from destroy_frame [of mem this "vptr fb" "object fb"] hp obtain mem1 where
      d: "destroy this mem = Some mem1" "header mem1 = header mem"
         "function_storage_size mem1 = function_storage_size mem" "allocations mem1 = allocations mem"
      by blast
    let ?mem2 = "modify this (\<lambda>fb. fb\<lparr>vptr := vptr fo\<rparr>) mem1"
    have h2: "header ?mem2 = (header mem)(this \<mapsto> (vptr fo, object fb))"
      using d(2) hp by (simp add: header_modify_vptr)
    have s2: "function_storage_size ?mem2 = function_storage_size mem" using d(3) by simp
    show ?thesis
    proof (cases "object fo = nullptr")
      case True
      then have "copy_assign this other mem = Some (modify this (\<lambda>fb. fb\<lparr>object := nullptr\<rparr>) ?mem2)"
        using assms(2,3) diff d(1) by (simp add: copy_assign_def)
      moreover have "header (modify this (\<lambda>fb. fb\<lparr>object := nullptr\<rparr>) ?mem2) = (header mem)(this \<mapsto> (vptr fo, nullptr))"
        using h2 by (simp add: header_modify_object)
      moreover have "function_storage_size (modify this (\<lambda>fb. fb\<lparr>object := nullptr\<rparr>) ?mem2) = function_storage_size mem"
        using s2 by simp
      moreover have "placed (function_storage_size mem) this (vptr fo) nullptr"
        using ho True by (cases "vptr fo") auto
      ultimately show ?thesis using invariant_upd1 [OF assms(1)] by blast
    next
      case False
      with ho obtain T where T: "vptr fo = vtable T" by (cases "vptr fo") auto
      have "header ?mem2 other = Some (vptr fo, object fo)" using h2 ho neq by simp
      then have r: "\<exists>x. read_at (object fo) ?mem2 = Some x"
        using read_at_placed [of ?mem2 other "vptr fo" "object fo"] ho False by blast
      let ?p = "if type_size T > function_storage_size mem then heap_block (allocations mem) else storage_of this"
      from vtable_copy_frame [OF r, of "storage_of this" T "function_storage_size ?mem2" False] obtain mem3 where
        c: "vtable_copy (vtable T) (storage_of this) (function_storage_size ?mem2) (object fo) False ?mem2
              = Some (?p, mem3)"
           "header mem3 = header ?mem2" "function_storage_size mem3 = function_storage_size ?mem2"
        using s2 d(4) by auto
      have "copy_assign this other mem = Some (modify this (\<lambda>fb. fb\<lparr>object := ?p\<rparr>) mem3)"
        using assms(2,3) diff d(1) False T c(1) by (simp add: copy_assign_def)
      moreover have "header (modify this (\<lambda>fb. fb\<lparr>object := ?p\<rparr>) mem3) = (header mem)(this \<mapsto> (vtable T, ?p))"
        using c(2) h2 T by (simp add: header_modify_object)
      moreover have "function_storage_size (modify this (\<lambda>fb. fb\<lparr>object := ?p\<rparr>) mem3) = function_storage_size mem"
        using c(3) s2 by simp
      ultimately show ?thesis using invariant_upd1 [OF assms(1) _ _ placed_allocated] by blast
    qed
  qed
qed


lemma swap_header:
  assumes a: "containers mem this = Some fa" and b: "containers mem f = Some fb"
  shows "\<exists>mem'. swap_function this f mem = Some mem'
           \<and> function_storage_size mem' = function_storage_size mem
           \<and> header mem' =
               (if this = f then header mem
                else (header mem)
                  (this \<mapsto> (vptr fb, if object fb = storage_of f then storage_of this else object fb),
                   f \<mapsto> (vptr fa, if object fa = storage_of this then storage_of f else object fa)))"
proof (cases "this = f")
  case True
  with a b have eq: "fb = fa" by simp
  have ha: "header mem f = Some (vptr fa, object fa)" using a True by (simp add: header_def)
  show ?thesis
    using True a eq ha
    by (auto simp add: swap_function_def Let_def containers_modify header_modify_object header_modify_vptr
          fun_upd_idem)
next
  case False
  then have ne: "f \<noteq> this" by simp
  have ha: "header mem this = Some (vptr fa, object fa)" using a by (simp add: header_def)
  have hb: "header mem f = Some (vptr fb, object fb)" using b by (simp add: header_def)
  show ?thesis
    using False ne a b ha hb
    by (simp add: swap_function_def Let_def containers_modify header_modify_object header_modify_vptr
          fun_upd_twist)
qed


lemma placed_moved:
  "a \<noteq> b \<Longrightarrow> placed n b v p \<Longrightarrow> placed n a v (if p = storage_of b then storage_of a else p)"
  by (cases v; cases p) auto

lemma swap_invariant:
  assumes "invariant mem" and a: "containers mem this = Some fa" and b: "containers mem f = Some fb"
  shows "\<exists>mem'. swap_function this f mem = Some mem' \<and> invariant mem'
           \<and> function_storage_size mem' = function_storage_size mem
           \<and> (this \<noteq> f \<longrightarrow>
                header mem' f = Some (vptr fa, if object fa = storage_of this then storage_of f else object fa))"
proof -
  note pa = invariant_placed [OF assms(1) a]
  note pb = invariant_placed [OF assms(1) b]
  from swap_header [OF a b] obtain mem' where
    s: "swap_function this f mem = Some mem'" "function_storage_size mem' = function_storage_size mem"
       "header mem' =
               (if this = f then header mem
                else (header mem)
                  (this \<mapsto> (vptr fb, if object fb = storage_of f then storage_of this else object fb),
                   f \<mapsto> (vptr fa, if object fa = storage_of this then storage_of f else object fa)))"
    by blast
  have "invariant mem'"
  proof (cases "this = f")
    case True
    with s(3) have "header mem' = header mem" by simp
    from invariant_same_header [OF assms(1) this s(2)] show ?thesis .
  next
    case False
    then have h: "header mem' = (header mem)
                  (this \<mapsto> (vptr fb, if object fb = storage_of f then storage_of this else object fb),
                   f \<mapsto> (vptr fa, if object fa = storage_of this then storage_of f else object fa))"
      using s(3) by simp
    have p1: "placed (function_storage_size mem) this (vptr fb)
                (if object fb = storage_of f then storage_of this else object fb)"
      using placed_moved [OF False, of "function_storage_size mem" "vptr fb" "object fb"] pb by simp
    have "f \<noteq> this" using False by simp
    from placed_moved [OF this, of "function_storage_size mem" "vptr fa" "object fa"] pa
    have p2: "placed (function_storage_size mem) f (vptr fa)
                (if object fa = storage_of this then storage_of f else object fa)"
      by simp
    show ?thesis
      by (rule invariant_upd2 [OF assms(1) s(2) h]) (simp_all add: p1 p2)
  qed
  with s show ?thesis by simp
qed

lemma move_assign_invariant:
  assumes "invariant mem" and a: "containers mem this = Some fa" and b: "containers mem other = Some fb"
  shows "\<exists>mem'. move_assign this other mem = Some mem' \<and> invariant mem'
           \<and> (this \<noteq> other \<longrightarrow> header mem' other = Some (empty_function_vtable, nullptr))"
proof (cases "this = other")
  case True
  with assms(1) show ?thesis by (simp add: move_assign_def)
next
  case False
  from swap_invariant [OF assms] False obtain mem1 where
    s: "swap_function this other mem = Some mem1" "invariant mem1"
       "header mem1 other = Some (vptr fa, if object fa = storage_of this then storage_of other else object fa)"
    by blast
  from s(3) obtain fo where fo: "containers mem1 other = Some fo" by (auto simp add: header_cases)
  from reset_invariant [OF s(2) fo] obtain mem' where
    r: "reset other mem1 = Some mem'" "invariant mem'"
       "header mem' = (header mem1)(other \<mapsto> (empty_function_vtable, nullptr))"
    by blast
  with False s(1) show ?thesis by (simp add: move_assign_def)
qed

lemma load_invariant:
  assumes "invariant mem" and a: "containers mem this = Some fb"
  shows "\<exists>e mem'. load registry this ar mem = Some (e, mem') \<and> invariant mem'"
proof -
  from reset_invariant [OF assms] obtain mem1 where
    r: "reset this mem = Some mem1" "invariant mem1"
       "header mem1 = (header mem)(this \<mapsto> (empty_function_vtable, nullptr))"
       "function_storage_size mem1 = function_storage_size mem"
    by blast
  show ?thesis
  proof (cases "ar_is_empty ar \<or> registry (ar_name ar) = None")
    case True
    with r(1,2) show ?thesis by (auto simp add: load_def)
  next
    case False
    then obtain T where T: "registry (ar_name ar) = Some T" and ne: "\<not> ar_is_empty ar" by auto
    let ?mem3 = "modify this (\<lambda>fb. fb\<lparr>vptr := vtable T\<rparr>)
                   (modify this (\<lambda>fb. fb\<lparr>serializable_vptr := serializable_vtable T\<rparr>) mem1)"
    have h3: "header ?mem3 = (header mem)(this \<mapsto> (vtable T, nullptr))"
      using r(3) by (simp add: header_modify_vptr)
    have s3: "function_storage_size ?mem3 = function_storage_size mem" using r(4) by simp
    obtain buffer mem4 where al: "allocate T (storage_of this) (function_storage_size ?mem3) ?mem3 = (buffer, mem4)"
      by (cases "allocate T (storage_of this) (function_storage_size ?mem3) ?mem3")
    note f4 = allocate_frame [OF al]
    have bn: "buffer \<noteq> nullptr" using f4 by (simp split: if_splits)
    from write_at_defined [OF bn, of "Some (callable T (ar_object ar))" mem4] obtain mem5 where
      w: "write_at buffer (Some (callable T (ar_object ar))) mem4 = Some mem5" by blast
    note f5 = write_at_frame [OF w]
    let ?mem' = "modify this (\<lambda>fb. fb\<lparr>object := buffer\<rparr>) mem5"
    have l: "load registry this ar mem = Some (None, ?mem')"
      using r(1) ne T al w by (simp add: load_def)
    have "header mem5 = (header mem)(this \<mapsto> (vtable T, nullptr))" using h3 f4 f5 by simp
    then have h: "header ?mem' = (header mem)(this \<mapsto> (vtable T, buffer))"
      by (simp add: header_modify_object)
    have s: "function_storage_size ?mem' = function_storage_size mem" using s3 f4 f5 by simp
    have "placed (function_storage_size mem) this (vtable T) buffer"
      using f4 s3 by simp
    from invariant_upd1 [OF assms(1) s h this] l show ?thesis by blast
  qed
qed

lemma basic_function_assign_invariant:
  assumes "invariant mem" and "containers mem this = Some fb"
  shows "\<exists>mem'. basic_function_assign this f mem = Some mem' \<and> invariant mem'"
proof -
  from assign_invariant [OF assms, of f] obtain mem1 where
    a: "assign this f mem = Some mem1" "invariant mem1" "header mem1 this \<noteq> None" by blast
  from a(3) obtain fb1 where fb1: "containers mem1 this = Some fb1" by (auto simp add: header_def)
  let ?g = "\<lambda>fb. fb\<lparr>serializable_vptr := get_serializable_vtable (type_of f)\<rparr>"
  have "invariant (modify this ?g mem1)"
    by (rule invariant_same_header [OF a(2)]) simp_all
  with a fb1 show ?thesis by (simp add: basic_function_assign_def is_empty_def)
qed

lemma basic_function_swap_invariant:
  assumes "invariant mem" and a: "containers mem this = Some fa" and b: "containers mem f = Some fb"
  shows "\<exists>mem'. basic_function_swap this f mem = Some mem' \<and> invariant mem'"
proof -
  from swap_invariant [OF assms] obtain mem1 where
    s: "swap_function this f mem = Some mem1" "invariant mem1" by blast
  from swap_header [OF a b] s(1) have
    h: "header mem1 =
               (if this = f then header mem
                else (header mem)
                  (this \<mapsto> (vptr fb, if object fb = storage_of f then storage_of this else object fb),
                   f \<mapsto> (vptr fa, if object fa = storage_of this then storage_of f else object fa)))"
    by simp
  have "header mem this \<noteq> None" "header mem f \<noteq> None" using a b by (simp_all add: header_def)
  with h have "header mem1 this \<noteq> None" "header mem1 f \<noteq> None" by (simp_all split: if_splits)
  then obtain a1 b1 where ab: "containers mem1 this = Some a1" "containers mem1 f = Some b1"
    by (auto simp add: header_def)
  let ?mem' = "modify f (\<lambda>fb. fb\<lparr>serializable_vptr := serializable_vptr a1\<rparr>)
                 (modify this (\<lambda>fb. fb\<lparr>serializable_vptr := serializable_vptr b1\<rparr>) mem1)"
  have "invariant ?mem'"
    by (rule invariant_same_header [OF s(2)]) simp_all
  with s(1) ab show ?thesis by (simp add: basic_function_swap_def)
qed

lemma invoke_empty:
  assumes "invariant mem" and "containers mem this = Some fb" and "object fb = nullptr"
  shows "invoke this mem = Some (Inl EmptyCallable)"
proof -
  from invariant_placed [OF assms(1,2)] assms(3)
  have "vptr fb = empty_function_vtable" by (cases "vptr fb") simp_all
  with assms(2) show ?thesis by (simp add: invoke_def)
qed

subsection \<open>\<^verbatim>\<open>assign\<close>\<close>

text \<open>
  Claim C3, as the code has it. A container that is not empty, and a call of
  \<open>assign\<close> with a callable \<open>f\<close> that is not an empty function and the
  dispatch table of whose decayed type is the one stored: the call leaves the object
  pointer and the dispatch-table pointer as they were and allocates nothing; where the
  invariant holds, the object behind the pointer is then \<open>f\<close>. Any sequence of
  further such calls, with callables of the same type, leaves the object pointer as it
  was and allocates nothing.
\<close>

theorem assign_same_type_reuses_storage:
  assumes c: "containers mem this = Some fb"
      and o: "object fb \<noteq> nullptr"
      and v: "vptr fb = get_vtable (type_of f)"
      and ne: "\<not> is_empty_function f"
      and fs: "\<forall>g \<in> set fs. type_of g = type_of f \<and> \<not> is_empty_function g"
  shows "\<exists>mem' fb' mem'' fb''.
             assign this f mem = Some mem' \<and> containers mem' this = Some fb'
           \<and> object fb' = object fb \<and> vptr fb' = vptr fb
           \<and> allocations mem' = allocations mem
           \<and> (invariant mem \<longrightarrow> invariant mem' \<and> read_at (object fb) mem' = Some (Some f))
           \<and> assign_all this fs mem' = Some mem'' \<and> containers mem'' this = Some fb''
           \<and> object fb'' = object fb \<and> vptr fb'' = vptr fb
           \<and> allocations mem'' = allocations mem"
proof -
  have h: "header mem this = Some (vtable (type_of f), object fb)"
    using c v by (simp add: header_def get_vtable_def)
  from assign_same_type [OF h o ne] obtain mem' where
    m: "assign this f mem = Some mem'" "header mem' = header mem"
       "function_storage_size mem' = function_storage_size mem" "allocations mem' = allocations mem"
       "(\<exists>y. read_at (object fb) mem = Some y) \<longrightarrow> read_at (object fb) mem' = Some (Some f)"
    by blast
  have h': "header mem' this = Some (vtable (type_of f), object fb)" using h m(2) by simp
  then obtain fb' where fb': "containers mem' this = Some fb'" "vptr fb' = vtable (type_of f)" "object fb' = object fb"
    by (auto simp add: header_cases)
  from assign_all_same_type [OF fs h' o] obtain mem'' where
    mm: "assign_all this fs mem' = Some mem''" "header mem'' = header mem'"
        "allocations mem'' = allocations mem'"
    by blast
  have "header mem'' this = Some (vtable (type_of f), object fb)" using h' mm(2) by simp
  then obtain fb'' where fb'': "containers mem'' this = Some fb''" "vptr fb'' = vtable (type_of f)" "object fb'' = object fb"
    by (auto simp add: header_cases)
  have inv: "invariant mem \<longrightarrow> invariant mem' \<and> read_at (object fb) mem' = Some (Some f)"
  proof
    assume i: "invariant mem"
    then have "placed (function_storage_size mem) this (vtable (type_of f)) (object fb)"
      using h by (simp add: invariant_header)
    from read_at_placed [OF h this o] m(5) invariant_same_header [OF i m(2) m(3)]
    show "invariant mem' \<and> read_at (object fb) mem' = Some (Some f)" by simp
  qed
  show ?thesis
    using m(1,4) fb' mm(1,3) fb'' inv v by (simp add: get_vtable_def)
qed

theorem assign_same_type_reuses_storage_witness:
  "containers example_memory 0 \<noteq> None
   \<and> (\<exists>mem' fb'. assign 0 (callable pointer_type (function_pointer (Some 8192))) example_memory = Some mem'
         \<and> containers mem' 0 = Some fb' \<and> object fb' = storage_of 0
         \<and> allocations mem' = 0)"
proof -
  let ?fb = "\<lparr>vptr = vtable pointer_type, object = storage_of 0,
                 storage = Some (callable pointer_type (function_pointer (Some 4096))),
                 serializable_vptr = serializable_vtable pointer_type\<rparr>"
  have c: "containers example_memory 0 = Some ?fb" by (simp add: example_memory_def)
  have a: "allocations example_memory = 0" by (simp add: example_memory_def)
  from assign_same_type_reuses_storage [of example_memory 0 ?fb
         "callable pointer_type (function_pointer (Some 8192))" "[]", OF c] a c
  show ?thesis by (auto simp add: get_vtable_def)
qed

text \<open>
  Against claim C3 as it is stated: the container at address 0 holds a function pointer,
  and the null function pointer of the same type has the same dispatch table; assigning
  it resets the container, whose object pointer is null afterwards.
\<close>

theorem assign_null_pointer_resets:
  "map_option vptr (containers example_memory 0) =
     Some (get_vtable (type_of (callable pointer_type (function_pointer None))))
   \<and> map_option object (containers example_memory 0) = Some (storage_of 0)
   \<and> map_option (\<lambda>mem'. map_option object (containers mem' 0))
         (assign 0 (callable pointer_type (function_pointer None)) example_memory) = Some (Some nullptr)"
  by (simp add: example_memory_def get_vtable_def assign_def reset_def destroy_def vtable_deallocate_def
        write_at_def modify_def function_storage_size_def pointer_type_def get_empty_function_vtable_def)

subsection \<open>\<^verbatim>\<open>load\<close>\<close>

text \<open>
  Claim C6. A call of \<open>load\<close> on a container first resets it. When the archive's
  empty flag is false and the type name it holds is not registered, the call fails with
  \<^verbatim>\<open>UnknownCallableType\<close>, and what it leaves behind is the memory after the
  reset: the container is empty, with the dispatch table of the empty state.
\<close>

theorem load_unknown_type:
  assumes c: "containers mem this = Some fb"
      and i: "function_invariant mem this fb"
      and ne: "\<not> ar_is_empty ar"
      and un: "registry (ar_name ar) = None"
  shows "\<exists>mem' fb'. load registry this ar mem = Some (Some UnknownCallableType, mem')
           \<and> reset this mem = Some mem'
           \<and> containers mem' this = Some fb'
           \<and> object fb' = nullptr \<and> vptr fb' = get_empty_function_vtable
           \<and> is_empty this mem' = Some True"
proof -
  have h: "header mem this = Some (vptr fb, object fb)" using c by (simp add: header_def)
  have pl: "placed (function_storage_size mem) this (vptr fb) (object fb)"
    using i by (simp add: function_invariant_def)
  from reset_frame [OF h pl] obtain mem' where
    r: "reset this mem = Some mem'" "header mem' = (header mem)(this \<mapsto> (empty_function_vtable, nullptr))"
    by blast
  then have "header mem' this = Some (empty_function_vtable, nullptr)" by simp
  then obtain fb' where "containers mem' this = Some fb'" "vptr fb' = empty_function_vtable" "object fb' = nullptr"
    by (auto simp add: header_cases)
  with r(1) ne un show ?thesis
    by (simp add: load_def is_empty_def get_empty_function_vtable_def)
qed

theorem load_unknown_type_witness:
  "\<exists>mem' fb'. load Map.empty 0 \<lparr>ar_is_empty = False, ar_name = ''unknown'', ar_object = function_state 0\<rparr>
                   example_memory = Some (Some UnknownCallableType, mem')
           \<and> containers mem' 0 = Some fb'
           \<and> object fb' = nullptr \<and> vptr fb' = get_empty_function_vtable
           \<and> is_empty 0 mem' = Some True"
proof -
  let ?fb = "\<lparr>vptr = vtable pointer_type, object = storage_of 0,
                 storage = Some (callable pointer_type (function_pointer (Some 4096))),
                 serializable_vptr = serializable_vtable pointer_type\<rparr>"
  have c: "containers example_memory 0 = Some ?fb" by (simp add: example_memory_def)
  have i: "function_invariant example_memory 0 ?fb"
    by (simp add: function_invariant_def example_memory_def function_storage_size_def pointer_type_def)
  from load_unknown_type [of example_memory 0 ?fb
         "\<lparr>ar_is_empty = False, ar_name = ''unknown'', ar_object = function_state 0\<rparr>" Map.empty, OF c i]
  show ?thesis by auto
qed

subsection \<open>The invariant\<close>

text \<open>
  Claim C7. In a memory in which every container has the invariant, every operation on
  containers that exist is defined and leaves a memory in which every container has the
  invariant: the default, copy and move construction of a container at any address, the
  copy and move assignment, \<open>assign\<close>, \<open>reset\<close>, \<open>swap\<close> and \<open>load\<close>.
  The invariant of a container says that its dispatch-table pointer is not null and
  that its object pointer is null exactly when the dispatch table is that of the empty
  state. A container that was moved from, by construction or by assignment to another
  container, is empty with the table of the empty state; and invoking an empty container
  goes through that table and fails with \<^verbatim>\<open>EmptyCallable\<close>.
\<close>

theorem invariant_preserved:
  assumes i: "invariant mem"
      and a: "containers mem this = Some fb"
      and b: "containers mem other = Some fo"
  shows "vptr fb \<noteq> null_vtable
       \<and> ((object fb = nullptr) = (vptr fb = get_empty_function_vtable))
       \<and> (is_empty this mem = Some True \<longrightarrow> invoke this mem = Some (Inl EmptyCallable))
       \<and> invariant (function_base_default new mem)
       \<and> (\<exists>mem'. function_base_copy new other mem = Some mem' \<and> invariant mem')
       \<and> (\<exists>mem' fo'. function_base_move new other mem = Some mem' \<and> invariant mem'
              \<and> containers mem' other = Some fo'
              \<and> vptr fo' = get_empty_function_vtable \<and> object fo' = nullptr)
       \<and> (\<exists>mem'. copy_assign this other mem = Some mem' \<and> invariant mem')
       \<and> (\<exists>mem'. move_assign this other mem = Some mem' \<and> invariant mem'
              \<and> (this \<noteq> other \<longrightarrow>
                   (\<exists>fo'. containers mem' other = Some fo'
                      \<and> vptr fo' = get_empty_function_vtable \<and> object fo' = nullptr)))
       \<and> (\<exists>mem'. assign this f mem = Some mem' \<and> invariant mem')
       \<and> (\<exists>mem'. basic_function_assign this f mem = Some mem' \<and> invariant mem')
       \<and> (\<exists>mem'. reset this mem = Some mem' \<and> invariant mem'
              \<and> is_empty this mem' = Some True)
       \<and> (\<exists>mem'. swap_function this other mem = Some mem' \<and> invariant mem')
       \<and> (\<exists>mem'. basic_function_swap this other mem = Some mem' \<and> invariant mem')
       \<and> (\<exists>e mem'. load registry this ar mem = Some (e, mem') \<and> invariant mem')"
proof -
  note hp = invariant_placed [OF i a]
  have 1: "vptr fb \<noteq> null_vtable \<and> ((object fb = nullptr) = (vptr fb = get_empty_function_vtable))"
    using placed_nonnull [of "function_storage_size mem" this "vptr fb" "object fb"] hp
    by (simp add: get_empty_function_vtable_def)
  have 2: "is_empty this mem = Some True \<longrightarrow> invoke this mem = Some (Inl EmptyCallable)"
    using invoke_empty [OF i a] a by (simp add: is_empty_def)
  have 3: "invariant (function_base_default new mem)"
    by (rule default_invariant [OF i])
  have 4: "\<exists>mem'. function_base_copy new other mem = Some mem' \<and> invariant mem'"
    by (rule copy_invariant [OF i b])
  have 5: "\<exists>mem' fo'. function_base_move new other mem = Some mem' \<and> invariant mem'
              \<and> containers mem' other = Some fo'
              \<and> vptr fo' = get_empty_function_vtable \<and> object fo' = nullptr"
    using move_invariant [OF i b, of new]
    by (auto simp add: header_cases get_empty_function_vtable_def)
  have 6: "\<exists>mem'. copy_assign this other mem = Some mem' \<and> invariant mem'"
    by (rule copy_assign_invariant [OF i a b])
  have 7: "\<exists>mem'. move_assign this other mem = Some mem' \<and> invariant mem'
              \<and> (this \<noteq> other \<longrightarrow>
                   (\<exists>fo'. containers mem' other = Some fo'
                      \<and> vptr fo' = get_empty_function_vtable \<and> object fo' = nullptr))"
    using move_assign_invariant [OF i a b]
    by (auto simp add: header_cases get_empty_function_vtable_def)
  have 8: "\<exists>mem'. assign this f mem = Some mem' \<and> invariant mem'"
    using assign_invariant [OF i a, of f] by blast
  have 9: "\<exists>mem'. basic_function_assign this f mem = Some mem' \<and> invariant mem'"
    by (rule basic_function_assign_invariant [OF i a])
  have 10: "\<exists>mem'. reset this mem = Some mem' \<and> invariant mem' \<and> is_empty this mem' = Some True"
  proof -
    from reset_invariant [OF i a] obtain mem' where
      r: "reset this mem = Some mem'" "invariant mem'"
         "header mem' = (header mem)(this \<mapsto> (empty_function_vtable, nullptr))"
      by blast
    from r(3) have "header mem' this = Some (empty_function_vtable, nullptr)" by simp
    then have "is_empty this mem' = Some True" by (auto simp add: header_cases is_empty_def)
    with r(1,2) show ?thesis by blast
  qed
  have 11: "\<exists>mem'. swap_function this other mem = Some mem' \<and> invariant mem'"
    using swap_invariant [OF i a b] by blast
  have 12: "\<exists>mem'. basic_function_swap this other mem = Some mem' \<and> invariant mem'"
    by (rule basic_function_swap_invariant [OF i a b])
  have 13: "\<exists>e mem'. load registry this ar mem = Some (e, mem') \<and> invariant mem'"
    by (rule load_invariant [OF i a])
  from 1 2 3 4 5 6 7 8 9 10 11 12 13 show ?thesis by blast
qed

lemma invariant_example: "invariant example_memory"
  by (simp add: invariant_def function_invariant_def example_memory_def function_storage_size_def
        pointer_type_def)

theorem invariant_preserved_witness:
  "invariant example_memory
   \<and> (\<exists>mem' fo'. function_base_move 2 0 example_memory = Some mem' \<and> invariant mem'
          \<and> containers mem' 0 = Some fo'
          \<and> vptr fo' = get_empty_function_vtable \<and> object fo' = nullptr)
   \<and> invoke 1 example_memory = Some (Inl EmptyCallable)"
proof -
  let ?f0 = "\<lparr>vptr = vtable pointer_type, object = storage_of 0,
                 storage = Some (callable pointer_type (function_pointer (Some 4096))),
                 serializable_vptr = serializable_vtable pointer_type\<rparr>"
  let ?f1 = "\<lparr>vptr = empty_function_vtable, object = nullptr, storage = None,
                 serializable_vptr = null_serializable_vtable\<rparr>"
  have c0: "containers example_memory 0 = Some ?f0" by (simp add: example_memory_def)
  have c1: "containers example_memory 1 = Some ?f1" by (simp add: example_memory_def)
  have e: "is_empty 1 example_memory = Some True" using c1 by (simp add: is_empty_def)
  from invariant_preserved [OF invariant_example c1 c0, of 2] e invariant_example
  show ?thesis by blast
qed

end
